theory Spec2Isabelle
  imports Main "HOL-Library.Multiset"
begin

section \<open>Shared data: cluster records and preferences\<close>

text \<open>
  The types \<open>ClusterPreferences\<close>, \<open>ClusterBaseInfo\<close> and \<open>Cluster\<close> are declared in
  \<open>main/cluster\<close>; the two source files read the fields below. An optional field
  (\<open>field?: T\<close>) is an \<open>option\<close>, with \<open>None\<close> for both \<open>undefined\<close> and \<open>null\<close>.
  Record fields that would share a name across records carry a prefix.
\<close>

record prometheus_preference =
  prom_namespace :: string
  prom_service :: string
  prom_port :: nat

record provider_preference =
  provider_type :: string

record cluster_preferences =
  pref_clusterName :: "string option"
  pref_prometheus :: "prometheus_preference option"
  pref_prometheusProvider :: "provider_preference option"
  pref_httpsProxy :: "string option"

record cluster_base_info =
  cluster_id :: string
  kubeConfigPath :: string
  cluster_contextName :: string
  preferences :: "cluster_preferences option"
  cluster_port :: "nat option"
  workspace :: "string option"

section \<open>The cluster store (common/cluster-store.ts)\<close>

text \<open>
  The \<open>ElectronStore\<close> is a keyed store; the methods below only use the key
  \<open>"clusters"\<close>, whose value is an array of cluster records. \<open>store.get(key, default)\<close>
  returns the default when the key is not set.
\<close>

type_synonym electron_store = "string \<rightharpoonup> cluster_base_info list"

definition store_get :: "string \<Rightarrow> cluster_base_info list \<Rightarrow> electron_store \<Rightarrow> cluster_base_info list" where
  "store_get key dflt s = (case s key of None \<Rightarrow> dflt | Some v \<Rightarrow> v)"

definition store_set :: "string \<Rightarrow> cluster_base_info list \<Rightarrow> electron_store \<Rightarrow> electron_store" where
  "store_set key v s = s(key \<mapsto> v)"

text \<open>\<open>Array.prototype.findIndex\<close>: the first index whose element satisfies the
  predicate; \<open>None\<close> stands for the result \<open>-1\<close>.\<close>

fun findIndex :: "('a \<Rightarrow> bool) \<Rightarrow> 'a list \<Rightarrow> nat option" where
  "findIndex P [] = None"
| "findIndex P (x # xs) =
     (if P x then Some 0 else (case findIndex P xs of None \<Rightarrow> None | Some i \<Rightarrow> Some (Suc i)))"

definition getAllClusters :: "electron_store \<Rightarrow> cluster_base_info list" where
  "getAllClusters s = store_get ''clusters'' [] s"

definition storable :: "cluster_base_info \<Rightarrow> cluster_base_info" where
  "storable cluster =
     \<lparr> cluster_id = cluster_id cluster,
       kubeConfigPath = kubeConfigPath cluster,
       cluster_contextName = cluster_contextName cluster,
       preferences = preferences cluster,
       cluster_port = None,
       workspace = workspace cluster \<rparr>"

definition storeCluster :: "cluster_base_info \<Rightarrow> electron_store \<Rightarrow> electron_store" where
  "storeCluster cluster s =
     (let clusters = getAllClusters s;
          index = findIndex (\<lambda>cl. cluster_id cl = cluster_id cluster) clusters;
          clusters' = (case index of
                         None \<Rightarrow> clusters @ [storable cluster]
                       | Some i \<Rightarrow> clusters[i := storable cluster])
      in store_set ''clusters'' clusters' s)"

section \<open>The context handler: data\<close>

text \<open>
  Errors are values. \<open>TypeError\<close> is what the runtime throws when a property of
  \<open>undefined\<close> or \<open>null\<close> is read; \<open>Raised msg\<close> is an error raised by a collaborator
  (the port allocator, a provider's probe, the proxy process).
\<close>

datatype error = TypeError | Raised string

text \<open>The fields of a parsed URL (\<open>url.UrlWithStringQuery\<close>) that the handler reads,
  and \<open>host\<close>, which includes the port where \<open>hostname\<close> does not.\<close>

record url_with_string_query =
  url_host :: "string option"
  url_hostname :: "string option"
  url_path :: "string option"

text \<open>The part of the client library's \<open>KubeConfig\<close> that the constructor uses: named
  contexts, named clusters and the current context's name.\<close>

record kube_context =
  context_name :: string
  context_cluster :: string
  context_namespace :: "string option"

record kube_cluster =
  kube_cluster_name :: string
  server :: string

record kube_config =
  contexts :: "kube_context list"
  clusters :: "kube_cluster list"
  currentContext :: "string option"

definition setCurrentContext :: "string \<Rightarrow> kube_config \<Rightarrow> kube_config" where
  "setCurrentContext name k = k\<lparr>currentContext := Some name\<rparr>"

definition getContextObject :: "kube_config \<Rightarrow> string option \<Rightarrow> kube_context option" where
  "getContextObject k name = find (\<lambda>c. Some (context_name c) = name) (contexts k)"

definition getCurrentCluster :: "kube_config \<Rightarrow> kube_cluster option" where
  "getCurrentCluster k =
     (case getContextObject k (currentContext k) of
        None \<Rightarrow> None
      | Some c \<Rightarrow> find (\<lambda>cl. kube_cluster_name cl = context_cluster c) (clusters k))"

record proxy_target =
  target_port :: nat
  protocol :: string
  target_host :: string
  target_path :: "string option"

record server_options =
  changeOrigin :: bool
  timeout :: nat
  headers :: "(string \<times> string option) list"
  target :: proxy_target

text \<open>A \<open>KubeAuthProxy\<close> handle: what it was constructed with, its last recorded error,
  and a serial number standing for the object's identity.\<close>

record kube_auth_proxy =
  proxy_serial :: nat
  proxy_cluster :: cluster_base_info
  proxy_port :: nat
  proxy_env :: "string \<rightharpoonup> string"
  lastError :: "error option"

record prometheus_service =
  service_id :: string
  service_namespace :: string
  service_name :: string
  service_port :: nat

text \<open>
  A telemetry provider of the list \<open>prometheusProviders\<close>, as seen by one round of
  probing: its id, the outcome of its \<open>getPrometheusService(apiClient)\<close> against the
  cluster (an error raised, absent, or a service) and the time the probe takes to settle.
\<close>

record prometheus_provider =
  provider_id :: string
  latency :: nat
  probe :: "error + prometheus_service option"

text \<open>The fields of \<open>ContextHandler\<close> that its methods read or write. A field that
  has not been assigned yet is \<open>None\<close>.\<close>

record context_handler =
  contextName :: string
  handler_id :: string
  url :: string
  kc :: kube_config
  cluster :: cluster_base_info
  apiTarget :: "server_options option"
  clusterUrl :: url_with_string_query
  proxyServer :: "kube_auth_proxy option"
  defaultNamespace :: "string option"
  proxyPort :: "nat option"
  kubernetesApi :: string
  prometheusProvider :: "string option"
  prometheusPath :: "string option"
  clusterName :: "string option"

text \<open>
  The collaborators outside the class: \<open>getFreePort\<close> (its answer to the n-th
  invocation), \<open>KubeAuthProxy.run\<close> (the error of the n-th proxy's start, if any) and
  \<open>process.env\<close>. The world counts the invocations made so far. Calls of the logger
  change neither the handler nor these counters and are left out.
\<close>

record collaborators =
  getFreePort :: "nat \<Rightarrow> error + nat"
  proxy_run :: "nat \<Rightarrow> error option"
  process_env :: "string \<rightharpoonup> string"

record world =
  portCalls :: nat
  runCalls :: nat
  exitCalls :: nat

section \<open>The context handler: operations\<close>

text \<open>Truthiness of the values the code tests: a number is falsy when absent or 0, a
  string when absent or empty.\<close>

definition truthy_number :: "nat option \<Rightarrow> bool" where
  "truthy_number n = (case n of None \<Rightarrow> False | Some k \<Rightarrow> k \<noteq> 0)"

definition truthy_string :: "string option \<Rightarrow> bool" where
  "truthy_string s = (case s of None \<Rightarrow> False | Some t \<Rightarrow> t \<noteq> [])"

text \<open>A number inside a template string is written in decimal.\<close>

function number_to_string :: "nat \<Rightarrow> string" where
  "number_to_string n =
     (if n < 10 then [''0123456789'' ! n]
      else number_to_string (n div 10) @ [''0123456789'' ! (n mod 10)])"
  by pat_completeness auto
termination
  by (relation "measure (\<lambda>n. n)") auto

definition template_number :: "nat option \<Rightarrow> string" where
  "template_number n = (case n of None \<Rightarrow> ''undefined'' | Some k \<Rightarrow> number_to_string k)"

text \<open>
  \<open>setClusterPreferences\<close>. Line 59 reads \<open>clusterPreferences.prometheusProvider\<close>
  before anything is assigned and before the presence checks of lines 61 and 67.
\<close>

definition setClusterPreferences ::
  "cluster_preferences option \<Rightarrow> context_handler \<Rightarrow> error + context_handler" where
  "setClusterPreferences clusterPreferences h =
     (case clusterPreferences of
        None \<Rightarrow> Inl TypeError
      | Some cp \<Rightarrow>
          Inr (h\<lparr> prometheusProvider := map_option provider_type (pref_prometheusProvider cp),
                 prometheusPath :=
                   (case pref_prometheus cp of
                      Some prom \<Rightarrow>
                        Some (prom_namespace prom @ ''/services/'' @ prom_service prom @ '':''
                              @ number_to_string (prom_port prom))
                    | None \<Rightarrow> None),
                 clusterName :=
                   (if truthy_string (pref_clusterName cp) then pref_clusterName cp
                    else Some (contextName h)) \<rparr>))"

text \<open>
  The constructor. \<open>parse\<close> is \<open>url.parse\<close>. Reading \<open>.server\<close> of a missing cluster or
  \<open>.namespace\<close> of a missing context throws, as does the call of
  \<open>setClusterPreferences\<close> at the end when \<open>cluster.preferences\<close> is absent.
\<close>

definition ContextHandler ::
  "(string \<Rightarrow> url_with_string_query) \<Rightarrow> kube_config \<Rightarrow> cluster_base_info
     \<Rightarrow> error + context_handler" where
  "ContextHandler parse kc0 cl =
     (let k = setCurrentContext (cluster_contextName cl) kc0 in
      case getCurrentCluster k of
        None \<Rightarrow> Inl TypeError
      | Some current \<Rightarrow>
         (case getContextObject k (currentContext k) of
            None \<Rightarrow> Inl TypeError
          | Some ctx \<Rightarrow>
              setClusterPreferences (preferences cl)
                \<lparr> contextName = cluster_contextName cl,
                  handler_id = cluster_id cl,
                  url = ''http://'' @ cluster_id cl @ ''.localhost:''
                        @ template_number (cluster_port cl) @ ''/'',
                  kc = k,
                  cluster = cl,
                  apiTarget = None,
                  clusterUrl = parse (server current),
                  proxyServer = None,
                  defaultNamespace = context_namespace ctx,
                  proxyPort = None,
                  kubernetesApi = ''http://127.0.0.1:'' @ template_number (cluster_port cl)
                                  @ ''/'' @ cluster_id cl,
                  prometheusProvider = None,
                  prometheusPath = None,
                  clusterName = None \<rparr>))"

subsection \<open>Telemetry resolution\<close>

text \<open>
  \<open>Promise.all\<close> over probes that run concurrently: it fulfils with the results in the
  order of the input once every promise has fulfilled, and rejects with the error of the
  promise that rejects first in time (the one listed first among equal times).
\<close>

fun first_rejection :: "nat \<times> error \<Rightarrow> (nat \<times> (error + 'a)) list \<Rightarrow> error" where
  "first_rejection (t, e) [] = e"
| "first_rejection (t, e) ((t', Inr v) # ps) = first_rejection (t, e) ps"
| "first_rejection (t, e) ((t', Inl e') # ps) =
     (if t' < t then first_rejection (t', e') ps else first_rejection (t, e) ps)"

fun Promise_all :: "(nat \<times> (error + 'a)) list \<Rightarrow> error + 'a list" where
  "Promise_all [] = Inr []"
| "Promise_all ((t, Inl e) # ps) = Inl (first_rejection (t, e) ps)"
| "Promise_all ((t, Inr v) # ps) =
     (case Promise_all ps of Inl e \<Rightarrow> Inl e | Inr vs \<Rightarrow> Inr (v # vs))"

definition fallback_service :: prometheus_service where
  "fallback_service =
     \<lparr> service_id = ''lens'', service_namespace = ''lens-metrics'',
       service_name = ''prometheus'', service_port = 80 \<rparr>"

text \<open>Line 89: the providers that are probed.\<close>

definition candidate_providers ::
  "prometheus_provider list \<Rightarrow> context_handler \<Rightarrow> prometheus_provider list" where
  "candidate_providers prometheusProviders h =
     (if truthy_string (prometheusProvider h)
      then filter (\<lambda>p. Some (provider_id p) = prometheusProvider h) prometheusProviders
      else prometheusProviders)"

definition getPrometheusService ::
  "prometheus_provider list \<Rightarrow> context_handler
     \<Rightarrow> (error + prometheus_service) \<times> context_handler" where
  "getPrometheusService prometheusProviders h =
     (let providers = candidate_providers prometheusProviders h;
          prometheusPromises = map (\<lambda>provider. (latency provider, probe provider)) providers
      in case Promise_all prometheusPromises of
           Inl e \<Rightarrow> (Inl e, h)
         | Inr resolvedPrometheusServices \<Rightarrow>
            (case filter (\<lambda>n. n \<noteq> None) resolvedPrometheusServices of
               Some service # _ \<Rightarrow> (Inr service, h)
             | _ \<Rightarrow> (Inr fallback_service, h)))"

definition resolvePrometheusPath ::
  "prometheus_provider list \<Rightarrow> context_handler \<Rightarrow> (error + string) \<times> context_handler" where
  "resolvePrometheusPath prometheusProviders h =
     (case getPrometheusService prometheusProviders h of
        (Inl e, h') \<Rightarrow> (Inl e, h')
      | (Inr service, h') \<Rightarrow>
          (Inr (service_namespace service @ ''/services/'' @ service_name service @ '':''
                @ number_to_string (service_port service)), h'))"

definition getPrometheusProvider ::
  "prometheus_provider list \<Rightarrow> context_handler
     \<Rightarrow> (error + prometheus_provider option) \<times> context_handler" where
  "getPrometheusProvider prometheusProviders h =
     (if \<not> truthy_string (prometheusProvider h)
      then (case getPrometheusService prometheusProviders h of
              (Inl e, h') \<Rightarrow> (Inl e, h')
            | (Inr service, h') \<Rightarrow>
               (let h'' = h'\<lparr>prometheusProvider := Some (service_id service)\<rparr>
                in (Inr (find (\<lambda>p. Some (provider_id p) = prometheusProvider h'')
                           prometheusProviders), h'')))
      else (Inr (find (\<lambda>p. Some (provider_id p) = prometheusProvider h) prometheusProviders), h))"

definition getPrometheusPath ::
  "prometheus_provider list \<Rightarrow> context_handler \<Rightarrow> (error + string) \<times> context_handler" where
  "getPrometheusPath prometheusProviders h =
     (let resolve = (case resolvePrometheusPath prometheusProviders h of
                       (Inl e, h') \<Rightarrow> (Inl e, h')
                     | (Inr path, h') \<Rightarrow> (Inr path, h'\<lparr>prometheusPath := Some path\<rparr>))
      in case prometheusPath h of
           Some path \<Rightarrow> if path \<noteq> [] then (Inr path, h) else resolve
         | None \<Rightarrow> resolve)"

subsection \<open>Proxy port and API target\<close>

text \<open>
  \<open>resolveProxyPort\<close> is an async function with one suspension point, the \<open>await\<close> of
  \<open>getFreePort()\<close>. What runs before it is one uninterrupted step: the test of
  \<open>this.proxyPort\<close> and, when it is falsy, the invocation of the allocator. What runs
  after it is a second uninterrupted step: the error is rethrown, or the port is stored
  and returned. Other code can run between the two steps.
\<close>

datatype 'a suspension = Returned 'a | Awaiting nat

definition resolveProxyPort_begin ::
  "context_handler \<Rightarrow> world \<Rightarrow> nat suspension \<times> world" where
  "resolveProxyPort_begin h w =
     (case proxyPort h of
        Some p \<Rightarrow> if p \<noteq> 0 then (Returned p, w)
                  else (Awaiting (portCalls w), w\<lparr>portCalls := Suc (portCalls w)\<rparr>)
      | None \<Rightarrow> (Awaiting (portCalls w), w\<lparr>portCalls := Suc (portCalls w)\<rparr>))"

definition resolveProxyPort_resume ::
  "collaborators \<Rightarrow> nat \<Rightarrow> context_handler \<Rightarrow> (error + nat) \<times> context_handler" where
  "resolveProxyPort_resume env ticket h =
     (case getFreePort env ticket of
        Inl e \<Rightarrow> (Inl e, h)
      | Inr serverPort \<Rightarrow> (Inr serverPort, h\<lparr>proxyPort := Some serverPort\<rparr>))"

text \<open>A call that nothing interleaves with: the second step follows the first.\<close>

definition resolveProxyPort ::
  "collaborators \<Rightarrow> context_handler \<Rightarrow> world \<Rightarrow> (error + nat) \<times> context_handler \<times> world" where
  "resolveProxyPort env h w =
     (case resolveProxyPort_begin h w of
        (Returned p, w') \<Rightarrow> (Inr p, h, w')
      | (Awaiting ticket, w') \<Rightarrow>
          (case resolveProxyPort_resume env ticket h of (r, h') \<Rightarrow> (r, h', w')))"

definition init ::
  "collaborators \<Rightarrow> context_handler \<Rightarrow> world \<Rightarrow> (error + unit) \<times> context_handler \<times> world" where
  "init env h w =
     (case resolveProxyPort env h w of
        (Inl e, h', w') \<Rightarrow> (Inl e, h', w')
      | (Inr _, h', w') \<Rightarrow> (Inr (), h', w'))"

definition newApiTarget ::
  "collaborators \<Rightarrow> nat \<Rightarrow> context_handler \<Rightarrow> world
     \<Rightarrow> (error + server_options) \<times> context_handler \<times> world" where
  "newApiTarget env tmo h w =
     (case resolveProxyPort env h w of
        (Inl e, h', w') \<Rightarrow> (Inl e, h', w')
      | (Inr port, h', w') \<Rightarrow>
          (Inr \<lparr> changeOrigin = True,
                 timeout = tmo,
                 headers = [(''Host'', url_hostname (clusterUrl h))],
                 target = \<lparr> target_port = port,
                            protocol = ''http://'',
                            target_host = ''localhost'',
                            target_path = url_path (clusterUrl h') \<rparr> \<rparr>, h', w'))"

definition getApiTarget ::
  "collaborators \<Rightarrow> bool \<Rightarrow> context_handler \<Rightarrow> world
     \<Rightarrow> (error + server_options) \<times> context_handler \<times> world" where
  "getApiTarget env isWatchRequest h w =
     (let build =
        (let tmo = (if isWatchRequest then 4 * 60 * 60 * 1000 else 30000) in
         case newApiTarget env tmo h w of
           (Inl e, h', w') \<Rightarrow> (Inl e, h', w')
         | (Inr t, h', w') \<Rightarrow>
             (Inr t, if \<not> isWatchRequest then h'\<lparr>apiTarget := Some t\<rparr> else h', w'))
      in case apiTarget h of
           Some cached \<Rightarrow> if \<not> isWatchRequest then (Inr cached, h, w) else build
         | None \<Rightarrow> build)"

text \<open>
  The cache and the port agree: the cache is empty, or the handler's port is resolved
  (non-zero) and the cache holds the non-watch descriptor built with that port.
\<close>

definition cache_consistent :: "context_handler \<Rightarrow> bool" where
  "cache_consistent h =
     (case apiTarget h of
        None \<Rightarrow> True
      | Some c \<Rightarrow>
         (case proxyPort h of
            None \<Rightarrow> False
          | Some p \<Rightarrow>
              p \<noteq> 0
              \<and> c = \<lparr> changeOrigin = True, timeout = 30000,
                       headers = [(''Host'', url_hostname (clusterUrl h))],
                       target = \<lparr> target_port = p, protocol = ''http://'',
                                  target_host = ''localhost'',
                                  target_path = url_path (clusterUrl h) \<rparr> \<rparr>))"

subsection \<open>Proxy process lifecycle\<close>

text \<open>
  \<open>ensureServer\<close> is an async function that suspends at the \<open>await\<close> of line 173. Its
  first step tests \<open>this.proxyServer\<close> (line 172) and, when there is no handle, starts
  \<open>resolveProxyPort()\<close>, which runs that function's first step. Its second step runs when
  the port is there: it finishes \<open>resolveProxyPort\<close>, builds the environment, constructs
  the proxy, assigns the handle (line 178) and calls \<open>run()\<close>. Other code can run between
  the two steps. \<open>None\<close> in the first step's result means that the call has returned.
\<close>

definition ensureServer_begin ::
  "context_handler \<Rightarrow> world \<Rightarrow> nat suspension option \<times> world" where
  "ensureServer_begin h w =
     (case proxyServer h of
        Some _ \<Rightarrow> (None, w)
      | None \<Rightarrow> (case resolveProxyPort_begin h w of (s, w') \<Rightarrow> (Some s, w')))"

definition ensureServer_resume ::
  "collaborators \<Rightarrow> nat suspension \<Rightarrow> context_handler \<Rightarrow> world
     \<Rightarrow> (error + unit) \<times> context_handler \<times> world" where
  "ensureServer_resume env s h w =
     (case (case s of
              Returned p \<Rightarrow> (Inr p, h)
            | Awaiting ticket \<Rightarrow> resolveProxyPort_resume env ticket h) of
        (Inl e, h') \<Rightarrow> (Inl e, h', w)
      | (Inr port, h') \<Rightarrow>
         (let proxyEnv =
                (case preferences (cluster h') of
                   Some prefs \<Rightarrow>
                     if truthy_string (pref_httpsProxy prefs)
                     then (process_env env)(''HTTPS_PROXY'' := pref_httpsProxy prefs)
                     else process_env env
                 | None \<Rightarrow> process_env env);
              proxy = \<lparr> proxy_serial = runCalls w, proxy_cluster = cluster h',
                        proxy_port = port, proxy_env = proxyEnv, lastError = None \<rparr>;
              h'' = h'\<lparr>proxyServer := Some proxy\<rparr>;
              w' = w\<lparr>runCalls := Suc (runCalls w)\<rparr>
          in case proxy_run env (runCalls w) of
               Some e \<Rightarrow> (Inl e, h'', w')
             | None \<Rightarrow> (Inr (), h'', w')))"

text \<open>A call that nothing interleaves with: the second step follows the first.\<close>

definition ensureServer ::
  "collaborators \<Rightarrow> context_handler \<Rightarrow> world \<Rightarrow> (error + unit) \<times> context_handler \<times> world" where
  "ensureServer env h w =
     (case ensureServer_begin h w of
        (None, w') \<Rightarrow> (Inr (), h, w')
      | (Some s, w') \<Rightarrow> ensureServer_resume env s h w')"

definition stopServer :: "context_handler \<Rightarrow> world \<Rightarrow> context_handler \<times> world" where
  "stopServer h w =
     (case proxyServer h of
        Some _ \<Rightarrow> (h\<lparr>proxyServer := None\<rparr>, w\<lparr>exitCalls := Suc (exitCalls w)\<rparr>)
      | None \<Rightarrow> (h, w))"

definition proxyServerError :: "context_handler \<Rightarrow> error option" where
  "proxyServerError h = (case proxyServer h of None \<Rightarrow> None | Some p \<Rightarrow> lastError p)"

text \<open>The number of proxy processes a handler holds a handle to.\<close>

definition live :: "context_handler \<Rightarrow> nat" where
  "live h = (case proxyServer h of None \<Rightarrow> 0 | Some _ \<Rightarrow> 1)"

subsection \<open>Sequences of operations\<close>

text \<open>
  Calls made in turn: every call runs to completion, through all of its suspension
  points, before the next call starts, as for a caller that awaits each call. A caller
  that catches an error goes on with the state the failed call left. Calls that overlap
  are not of this kind; they are the subject of the schedules below.
\<close>

datatype operation =
    Init
  | SetClusterPreferences "cluster_preferences option"
  | GetPrometheusProvider "prometheus_provider list"
  | GetPrometheusService "prometheus_provider list"
  | GetPrometheusPath "prometheus_provider list"
  | GetApiTarget bool
  | ResolveProxyPort
  | EnsureServer
  | StopServer

fun call_in_turn ::
  "collaborators \<Rightarrow> operation \<Rightarrow> context_handler \<times> world \<Rightarrow> context_handler \<times> world" where
  "call_in_turn env Init (h, w) = snd (init env h w)"
| "call_in_turn env (SetClusterPreferences cp) (h, w) =
     (case setClusterPreferences cp h of Inl e \<Rightarrow> (h, w) | Inr h' \<Rightarrow> (h', w))"
| "call_in_turn env (GetPrometheusProvider ps) (h, w) = (snd (getPrometheusProvider ps h), w)"
| "call_in_turn env (GetPrometheusService ps) (h, w) = (snd (getPrometheusService ps h), w)"
| "call_in_turn env (GetPrometheusPath ps) (h, w) = (snd (getPrometheusPath ps h), w)"
| "call_in_turn env (GetApiTarget b) (h, w) = snd (getApiTarget env b h w)"
| "call_in_turn env ResolveProxyPort (h, w) = snd (resolveProxyPort env h w)"
| "call_in_turn env EnsureServer (h, w) = snd (ensureServer env h w)"
| "call_in_turn env StopServer (h, w) = stopServer h w"

definition calls_in_turn ::
  "collaborators \<Rightarrow> operation list \<Rightarrow> context_handler \<times> world \<Rightarrow> context_handler \<times> world" where
  "calls_in_turn env ops s = fold (call_in_turn env) ops s"

subsection \<open>Overlapping calls of \<open>resolveProxyPort\<close>\<close>

text \<open>
  Calls of \<open>resolveProxyPort\<close> on one handler under the single-threaded scheduler: an
  event either starts a new call, which runs its first step, or resumes the i-th
  suspended call, which runs its second step. \<open>pending\<close> holds the allocator tickets of
  the suspended calls, \<open>results\<close> what the completed calls resolved or rejected with.
\<close>

datatype event = Call | Resume nat

record schedule_state =
  sched_handler :: context_handler
  sched_world :: world
  pending :: "nat list"
  results :: "(error + nat) list"

fun step :: "collaborators \<Rightarrow> event \<Rightarrow> schedule_state \<Rightarrow> schedule_state" where
  "step env Call c =
     (case resolveProxyPort_begin (sched_handler c) (sched_world c) of
        (Returned p, w') \<Rightarrow> c\<lparr>sched_world := w', results := results c @ [Inr p]\<rparr>
      | (Awaiting ticket, w') \<Rightarrow> c\<lparr>sched_world := w', pending := pending c @ [ticket]\<rparr>)"
| "step env (Resume i) c =
     (if i < length (pending c)
      then (case resolveProxyPort_resume env (pending c ! i) (sched_handler c) of
              (r, h') \<Rightarrow> c\<lparr> sched_handler := h',
                             pending := take i (pending c) @ drop (Suc i) (pending c),
                             results := results c @ [r] \<rparr>)
      else c)"

definition run_schedule ::
  "collaborators \<Rightarrow> event list \<Rightarrow> context_handler \<Rightarrow> world \<Rightarrow> schedule_state" where
  "run_schedule env evs h w =
     fold (step env) evs \<lparr>sched_handler = h, sched_world = w, pending = [], results = []\<rparr>"

subsection \<open>Overlapping calls of \<open>ensureServer\<close>\<close>

text \<open>
  Calls of \<open>ensureServer\<close> on one handler under the same scheduler: an event starts a
  new call, which runs its first step, or resumes the i-th suspended call, which runs
  its second step.
\<close>

datatype ensure_event = EnsureCall | EnsureResume nat

record ensure_state =
  ens_handler :: context_handler
  ens_world :: world
  ens_pending :: "nat suspension list"
  ens_results :: "(error + unit) list"

fun ensure_step :: "collaborators \<Rightarrow> ensure_event \<Rightarrow> ensure_state \<Rightarrow> ensure_state" where
  "ensure_step env EnsureCall c =
     (case ensureServer_begin (ens_handler c) (ens_world c) of
        (None, w') \<Rightarrow> c\<lparr>ens_world := w', ens_results := ens_results c @ [Inr ()]\<rparr>
      | (Some s, w') \<Rightarrow> c\<lparr>ens_world := w', ens_pending := ens_pending c @ [s]\<rparr>)"
| "ensure_step env (EnsureResume i) c =
     (if i < length (ens_pending c)
      then (case ensureServer_resume env (ens_pending c ! i) (ens_handler c) (ens_world c) of
              (r, h', w') \<Rightarrow>
                c\<lparr> ens_handler := h', ens_world := w',
                   ens_pending := take i (ens_pending c) @ drop (Suc i) (ens_pending c),
                   ens_results := ens_results c @ [r] \<rparr>)
      else c)"

definition run_ensure_schedule ::
  "collaborators \<Rightarrow> ensure_event list \<Rightarrow> context_handler \<Rightarrow> world \<Rightarrow> ensure_state" where
  "run_ensure_schedule env evs h w =
     fold (ensure_step env) evs
       \<lparr>ens_handler = h, ens_world = w, ens_pending = [], ens_results = []\<rparr>"

section \<open>Selection as the specification words it\<close>

text \<open>
  The specification's selection rule, written from its words and not from the code:
  scan the candidates in list order and take the first whose probe returned a service.
  Latencies play no part in it.
\<close>

fun first_match :: "prometheus_provider list \<Rightarrow> prometheus_service option" where
  "first_match [] = None"
| "first_match (p # ps) = (case probe p of Inr (Some s) \<Rightarrow> Some s | _ \<Rightarrow> first_match ps)"

section \<open>Example values\<close>

definition example_preferences :: cluster_preferences where
  "example_preferences =
     \<lparr> pref_clusterName = None, pref_prometheus = None,
       pref_prometheusProvider = None, pref_httpsProxy = None \<rparr>"

definition example_cluster :: cluster_base_info where
  "example_cluster =
     \<lparr> cluster_id = ''c1'', kubeConfigPath = ''/home/u/.kube/config'',
       cluster_contextName = ''prod'', preferences = Some example_preferences,
       cluster_port = Some 9000, workspace = Some ''default'' \<rparr>"

definition example_kube_config :: kube_config where
  "example_kube_config =
     \<lparr> contexts = [\<lparr> context_name = ''prod'', context_cluster = ''k1'',
                      context_namespace = Some ''kube-system'' \<rparr>],
       clusters = [\<lparr> kube_cluster_name = ''k1'', server = ''https://10.0.0.1:6443/k8s'' \<rparr>],
       currentContext = None \<rparr>"

definition example_url :: url_with_string_query where
  "example_url =
     \<lparr> url_host = Some ''10.0.0.1:6443'', url_hostname = Some ''10.0.0.1'',
       url_path = Some ''/k8s'' \<rparr>"

definition example_handler :: context_handler where
  "example_handler =
     \<lparr> contextName = ''prod'',
       handler_id = ''c1'',
       url = ''http://c1.localhost:9000/'',
       kc = example_kube_config\<lparr>currentContext := Some ''prod''\<rparr>,
       cluster = example_cluster,
       apiTarget = None,
       clusterUrl = example_url,
       proxyServer = None,
       defaultNamespace = Some ''kube-system'',
       proxyPort = None,
       kubernetesApi = ''http://127.0.0.1:9000/c1'',
       prometheusProvider = None,
       prometheusPath = None,
       clusterName = Some ''prod'' \<rparr>"

definition example_collaborators :: collaborators where
  "example_collaborators =
     \<lparr> getFreePort = (\<lambda>n. Inr (4001 + n)), proxy_run = (\<lambda>n. None),
       process_env = Map.empty \<rparr>"

definition zero_first_collaborators :: collaborators where
  "zero_first_collaborators =
     \<lparr> getFreePort = (\<lambda>n. if n = 0 then Inr 0 else Inr 4002), proxy_run = (\<lambda>n. None),
       process_env = Map.empty \<rparr>"

definition example_world :: world where
  "example_world = \<lparr> portCalls = 0, runCalls = 0, exitCalls = 0 \<rparr>"

definition service_B :: prometheus_service where
  "service_B = \<lparr> service_id = ''B'', service_namespace = ''monitoring'',
                 service_name = ''prometheus-b'', service_port = 9090 \<rparr>"

definition service_C :: prometheus_service where
  "service_C = \<lparr> service_id = ''C'', service_namespace = ''metrics'',
                 service_name = ''prometheus-c'', service_port = 9091 \<rparr>"

definition provider_A :: "nat \<Rightarrow> prometheus_provider" where
  "provider_A t = \<lparr> provider_id = ''A'', latency = t, probe = Inr None \<rparr>"

definition provider_B :: "nat \<Rightarrow> prometheus_provider" where
  "provider_B t = \<lparr> provider_id = ''B'', latency = t, probe = Inr (Some service_B) \<rparr>"

definition provider_C :: "nat \<Rightarrow> prometheus_provider" where
  "provider_C t = \<lparr> provider_id = ''C'', latency = t, probe = Inr (Some service_C) \<rparr>"

definition provider_failing :: "nat \<Rightarrow> prometheus_provider" where
  "provider_failing t = \<lparr> provider_id = ''F'', latency = t, probe = Inl (Raised ''timeout'') \<rparr>"

definition provider_refusing :: "nat \<Rightarrow> prometheus_provider" where
  "provider_refusing t = \<lparr> provider_id = ''R'', latency = t, probe = Inl (Raised ''refused'') \<rparr>"

definition example_target :: "nat \<Rightarrow> server_options" where
  "example_target tmo =
     \<lparr> changeOrigin = True, timeout = tmo, headers = [(''Host'', Some ''10.0.0.1'')],
       target = \<lparr> target_port = 4001, protocol = ''http://'', target_host = ''localhost'',
                  target_path = Some ''/k8s'' \<rparr> \<rparr>"

definition cached_handler :: context_handler where
  "cached_handler =
     example_handler\<lparr> proxyPort := Some 4001, apiTarget := Some (example_target 30000) \<rparr>"

definition running_handler :: context_handler where
  "running_handler =
     example_handler\<lparr> proxyPort := Some 4001,
       proxyServer := Some \<lparr> proxy_serial = 0, proxy_cluster = example_cluster,
                              proxy_port = 4001, proxy_env = Map.empty, lastError = None \<rparr> \<rparr>"

definition running_world :: world where
  "running_world = \<lparr> portCalls = 1, runCalls = 1, exitCalls = 0 \<rparr>"

section \<open>Properties of the cluster store\<close>

lemma findIndex_None: "findIndex P xs = None \<longleftrightarrow> (\<forall>x \<in> set xs. \<not> P x)"
  by (induction xs) (auto split: option.splits)

lemma findIndex_Some:
  "findIndex P xs = Some i \<Longrightarrow> i < length xs \<and> P (xs ! i) \<and> (\<forall>j < i. \<not> P (xs ! j))"
proof (induction xs arbitrary: i)
  case Nil
  then show ?case by simp
next
  case (Cons x xs)
  show ?case
  proof (cases "P x")
    case True
    with Cons.prems show ?thesis by simp
  next
    case False
    with Cons.prems obtain k where k: "findIndex P xs = Some k" "i = Suc k"
      by (auto split: option.splits)
    from Cons.IH [OF k(1)] False k(2) show ?thesis
      by (auto simp: less_Suc_eq_0_disj)
  qed
qed

lemma find_append_new:
  "\<forall>x \<in> set xs. \<not> P x \<Longrightarrow> P y \<Longrightarrow> find P (xs @ [y]) = Some y"
  by (induction xs) auto

lemma find_update_first:
  "i < length xs \<Longrightarrow> \<forall>j < i. \<not> P (xs ! j) \<Longrightarrow> P y \<Longrightarrow> find P (xs[i := y]) = Some y"
proof (induction xs arbitrary: i)
  case Nil
  then show ?case by simp
next
  case (Cons x xs)
  show ?case
  proof (cases i)
    case 0
    with Cons.prems show ?thesis by simp
  next
    case (Suc k)
    with Cons.prems have "\<not> P x" by auto
    moreover from Suc Cons.prems have "k < length xs" "\<forall>j < k. \<not> P (xs ! j)" by auto
    ultimately show ?thesis using Suc Cons.IH [of k] Cons.prems(3) by simp
  qed
qed

lemma getAllClusters_storeCluster:
  "getAllClusters (storeCluster c s) =
     (case findIndex (\<lambda>cl. cluster_id cl = cluster_id c) (getAllClusters s) of
        None \<Rightarrow> getAllClusters s @ [storable c]
      | Some i \<Rightarrow> (getAllClusters s)[i := storable c])"
  by (simp add: storeCluster_def getAllClusters_def store_get_def store_set_def Let_def
      split: option.splits)

lemma storable_id: "cluster_id (storable c) = cluster_id c"
  by (simp add: storable_def)

text \<open>
  C9. After \<open>storeCluster(record)\<close>, \<open>getAllClusters()\<close> holds exactly one new or
  replaced entry for the record: the entry found under the record's id is the stored
  record, which agrees with the input on id, kubeConfigPath, contextName, preferences
  and workspace. When the id was absent the list grows by that entry at the end
  (insert); when it was present the first entry with that id is replaced in place and
  the length is unchanged (upsert).
\<close>

theorem storeCluster_roundtrip:
  fixes c :: cluster_base_info and s :: electron_store
  defines "old \<equiv> getAllClusters s"
  defines "new \<equiv> getAllClusters (storeCluster c s)"
  shows "\<exists>r. find (\<lambda>cl. cluster_id cl = cluster_id c) new = Some r
            \<and> r \<in> set new
            \<and> cluster_id r = cluster_id c
            \<and> kubeConfigPath r = kubeConfigPath c
            \<and> cluster_contextName r = cluster_contextName c
            \<and> preferences r = preferences c
            \<and> workspace r = workspace c
            \<and> (if cluster_id c \<in> cluster_id ` set old
               then (\<exists>i < length old. cluster_id (old ! i) = cluster_id c \<and> new = old[i := r])
               else new = old @ [r])"
proof (cases "findIndex (\<lambda>cl. cluster_id cl = cluster_id c) old")
  case None
  then have absent: "\<forall>x \<in> set old. cluster_id x \<noteq> cluster_id c"
    by (simp add: findIndex_None)
  from None have new: "new = old @ [storable c]"
    unfolding new_def old_def by (simp add: getAllClusters_storeCluster)
  have "find (\<lambda>cl. cluster_id cl = cluster_id c) new = Some (storable c)"
    unfolding new using absent by (intro find_append_new) (simp_all add: storable_id)
  moreover have "cluster_id c \<notin> cluster_id ` set old"
    using absent by auto
  ultimately show ?thesis
    using new by (simp add: storable_def)
next
  case (Some i)
  note idx = findIndex_Some [OF Some]
  from Some have new: "new = old[i := storable c]"
    unfolding new_def old_def by (simp add: getAllClusters_storeCluster)
  have "find (\<lambda>cl. cluster_id cl = cluster_id c) new = Some (storable c)"
    unfolding new using idx by (intro find_update_first) (simp_all add: storable_id)
  moreover have "cluster_id c \<in> cluster_id ` set old"
    using idx by (metis imageI nth_mem)
  moreover have "storable c \<in> set new"
    unfolding new using idx by (simp add: set_update_memI)
  ultimately show ?thesis
    using new idx by (auto simp: storable_def)
qed


theorem storeCluster_roundtrip_witness:
  "getAllClusters (storeCluster example_cluster Map.empty) = [storable example_cluster]
   \<and> getAllClusters (storeCluster (example_cluster\<lparr>kubeConfigPath := ''/tmp/k''\<rparr>)
                       (storeCluster example_cluster Map.empty))
       = [storable (example_cluster\<lparr>kubeConfigPath := ''/tmp/k''\<rparr>)]
   \<and> kubeConfigPath (storable (example_cluster\<lparr>kubeConfigPath := ''/tmp/k''\<rparr>)) = ''/tmp/k''"
  using storeCluster_roundtrip [of example_cluster Map.empty]
    storeCluster_roundtrip [of "example_cluster\<lparr>kubeConfigPath := ''/tmp/k''\<rparr>"
                               "storeCluster example_cluster Map.empty"]
  by (simp add: getAllClusters_storeCluster)
     (simp add: getAllClusters_def store_get_def storable_def example_cluster_def)

section \<open>Properties of telemetry resolution\<close>

lemma first_rejection_mem:
  "first_rejection (t, e) ps = e \<or> (\<exists>t'. (t', Inl (first_rejection (t, e) ps)) \<in> set ps)"
proof (induction ps arbitrary: t e)
  case Nil
  then show ?case by simp
next
  case (Cons q ps)
  obtain t' r where q: "q = (t', r)" by (cases q)
  show ?case
  proof (cases r)
    case (Inl e')
    with q Cons.IH [of t' e'] Cons.IH [of t e] show ?thesis by auto
  next
    case (Inr v)
    with q Cons.IH [of t e] show ?thesis by auto
  qed
qed

lemma Promise_all_fulfilled:
  "\<forall>p \<in> set ps. \<not> isl (snd p) \<Longrightarrow> Promise_all ps = Inr (map (\<lambda>p. projr (snd p)) ps)"
proof (induction ps)
  case Nil
  then show ?case by simp
next
  case (Cons q ps)
  obtain t r where q: "q = (t, r)" by (cases q)
  with Cons.prems obtain v where r: "r = Inr v" by (cases r) auto
  from Cons have "Promise_all ps = Inr (map (\<lambda>p. projr (snd p)) ps)" by simp
  with q r show ?case by simp
qed

lemma Promise_all_rejected:
  "\<exists>p \<in> set ps. isl (snd p) \<Longrightarrow> \<exists>t e. (t, Inl e) \<in> set ps \<and> Promise_all ps = Inl e"
proof (induction ps)
  case Nil
  then show ?case by simp
next
  case (Cons q ps)
  obtain t r where q: "q = (t, r)" by (cases q)
  show ?case
  proof (cases r)
    case (Inl e)
    with q first_rejection_mem [of t e ps] show ?thesis by auto
  next
    case (Inr v)
    with q Cons.prems have "\<exists>p \<in> set ps. isl (snd p)" by auto
    from Cons.IH [OF this] obtain t' e where "(t', Inl e) \<in> set ps" "Promise_all ps = Inl e"
      by blast
    with q Inr show ?thesis by auto
  qed
qed

lemma select_first_match:
  "\<forall>p \<in> set ps. \<not> isl (probe p) \<Longrightarrow>
   (case filter (\<lambda>n. n \<noteq> None) (map (\<lambda>p. projr (probe p)) ps) of
      Some service # _ \<Rightarrow> (Inr service, h)
    | _ \<Rightarrow> (Inr fallback_service, h))
   = (Inr (case first_match ps of Some s \<Rightarrow> s | None \<Rightarrow> fallback_service), h)"
proof (induction ps)
  case Nil
  then show ?case by simp
next
  case (Cons p ps)
  then obtain r where r: "probe p = Inr r" by (cases "probe p") auto
  show ?case
  proof (cases r)
    case None
    with r Cons show ?thesis by simp
  next
    case (Some s)
    with r show ?thesis by simp
  qed
qed

lemma getPrometheusService_fulfilled:
  assumes "\<forall>p \<in> set (candidate_providers ps h). \<not> isl (probe p)"
  shows "getPrometheusService ps h =
           (Inr (case first_match (candidate_providers ps h) of
                   Some s \<Rightarrow> s | None \<Rightarrow> fallback_service), h)"
proof -
  let ?cs = "candidate_providers ps h"
  have "Promise_all (map (\<lambda>p. (latency p, probe p)) ?cs) = Inr (map (\<lambda>p. projr (probe p)) ?cs)"
    using assms Promise_all_fulfilled [of "map (\<lambda>p. (latency p, probe p)) ?cs"]
    by (simp add: comp_def)
  then show ?thesis
    using select_first_match [OF assms, of h]
    by (simp add: getPrometheusService_def)
qed

lemma getPrometheusService_rejected:
  assumes "\<exists>p \<in> set (candidate_providers ps h). isl (probe p)"
  shows "\<exists>p \<in> set (candidate_providers ps h). \<exists>e. probe p = Inl e
            \<and> getPrometheusService ps h = (Inl e, h)"
proof -
  let ?cs = "candidate_providers ps h"
  from assms have "\<exists>q \<in> set (map (\<lambda>p. (latency p, probe p)) ?cs). isl (snd q)"
    by auto
  from Promise_all_rejected [OF this] obtain t e
    where mem: "(t, Inl e) \<in> set (map (\<lambda>p. (latency p, probe p)) ?cs)"
      and rej: "Promise_all (map (\<lambda>p. (latency p, probe p)) ?cs) = Inl e"
    by blast
  from mem obtain p where "p \<in> set ?cs" "probe p = Inl e" by auto
  moreover from rej have "getPrometheusService ps h = (Inl e, h)"
    by (simp add: getPrometheusService_def)
  ultimately show ?thesis by blast
qed

lemma first_match_probes:
  "map probe ps' = map probe ps \<Longrightarrow> first_match ps' = first_match ps"
proof (induction ps' arbitrary: ps)
  case Nil
  then show ?case by simp
next
  case (Cons q qs)
  then obtain p ps0 where ps: "ps = p # ps0" by (cases ps) auto
  with Cons.prems have "probe q = probe p" "map probe qs = map probe ps0" by simp_all
  with Cons.IH [of ps0] have "probe q = probe p" "first_match qs = first_match ps0" by simp_all
  with ps show ?case by (simp split: sum.splits option.splits)
qed

lemma getPrometheusService_handler: "snd (getPrometheusService ps h) = h"
  by (simp add: getPrometheusService_def Let_def split: sum.splits list.splits option.splits)

section \<open>Properties of the proxy port, the API target and the proxy process\<close>

lemma resolveProxyPort_resolved:
  "proxyPort h = Some p \<Longrightarrow> p \<noteq> 0 \<Longrightarrow> resolveProxyPort env h w = (Inr p, h, w)"
  by (simp add: resolveProxyPort_def resolveProxyPort_begin_def)

lemma resolveProxyPort_unresolved:
  "\<not> truthy_number (proxyPort h) \<Longrightarrow>
   resolveProxyPort env h w =
     (case getFreePort env (portCalls w) of
        Inl e \<Rightarrow> (Inl e, h, w\<lparr>portCalls := Suc (portCalls w)\<rparr>)
      | Inr p \<Rightarrow> (Inr p, h\<lparr>proxyPort := Some p\<rparr>, w\<lparr>portCalls := Suc (portCalls w)\<rparr>))"
  by (auto simp: resolveProxyPort_def resolveProxyPort_begin_def resolveProxyPort_resume_def
      truthy_number_def split: option.splits sum.splits)

lemma resolveProxyPort_result:
  "resolveProxyPort env h w = (Inr p, h', w') \<Longrightarrow>
   proxyPort h' = Some p \<and> h' = h\<lparr>proxyPort := Some p\<rparr>
   \<and> runCalls w' = runCalls w \<and> exitCalls w' = exitCalls w"
  by (auto simp: resolveProxyPort_def resolveProxyPort_begin_def resolveProxyPort_resume_def
      split: option.splits sum.splits if_splits)

lemma resolveProxyPort_error:
  "resolveProxyPort env h w = (Inl e, h', w') \<Longrightarrow>
   h' = h \<and> runCalls w' = runCalls w \<and> exitCalls w' = exitCalls w"
  by (auto simp: resolveProxyPort_def resolveProxyPort_begin_def resolveProxyPort_resume_def
      split: option.splits sum.splits if_splits)

lemma newApiTarget_result:
  "newApiTarget env tmo h w = (Inr d, h', w') \<Longrightarrow>
   \<exists>p. resolveProxyPort env h w = (Inr p, h', w')
      \<and> d = \<lparr> changeOrigin = True, timeout = tmo,
               headers = [(''Host'', url_hostname (clusterUrl h))],
               target = \<lparr> target_port = p, protocol = ''http://'', target_host = ''localhost'',
                          target_path = url_path (clusterUrl h) \<rparr> \<rparr>"
  by (auto simp: newApiTarget_def split: prod.splits sum.splits dest: resolveProxyPort_result)

lemma newApiTarget_error:
  "newApiTarget env tmo h w = (Inl e, h', w') \<Longrightarrow> resolveProxyPort env h w = (Inl e, h', w')"
  by (auto simp: newApiTarget_def split: prod.splits sum.splits)

lemma getApiTarget_cached:
  "apiTarget h = Some c \<Longrightarrow> getApiTarget env False h w = (Inr c, h, w)"
  by (simp add: getApiTarget_def Let_def)

lemma getApiTarget_build:
  "isWatchRequest \<or> apiTarget h = None \<Longrightarrow>
   getApiTarget env isWatchRequest h w =
     (case newApiTarget env (if isWatchRequest then 14400000 else 30000) h w of
        (Inl e, h', w') \<Rightarrow> (Inl e, h', w')
      | (Inr t, h', w') \<Rightarrow>
          (Inr t, if \<not> isWatchRequest then h'\<lparr>apiTarget := Some t\<rparr> else h', w'))"
  by (auto simp: getApiTarget_def Let_def split: option.splits)

lemma getPrometheusService_state: "getPrometheusService ps h = (r, h') \<Longrightarrow> h' = h"
  using getPrometheusService_handler [of ps h] by simp

lemma getPrometheusProvider_frame:
  "proxyPort (snd (getPrometheusProvider ps h)) = proxyPort h
   \<and> proxyServer (snd (getPrometheusProvider ps h)) = proxyServer h"
proof (cases "getPrometheusService ps h")
  case (Pair r h')
  with getPrometheusService_state [OF Pair] show ?thesis
    by (cases r) (simp_all add: getPrometheusProvider_def Let_def)
qed

lemma getPrometheusPath_frame:
  "proxyPort (snd (getPrometheusPath ps h)) = proxyPort h
   \<and> proxyServer (snd (getPrometheusPath ps h)) = proxyServer h"
proof (cases "getPrometheusService ps h")
  case (Pair r h')
  with getPrometheusService_state [OF Pair] show ?thesis
    by (cases r; cases "prometheusPath h")
       (simp_all add: getPrometheusPath_def resolvePrometheusPath_def Let_def)
qed

lemma setClusterPreferences_frame:
  "setClusterPreferences cp h = Inr h' \<Longrightarrow>
   proxyPort h' = proxyPort h \<and> proxyServer h' = proxyServer h"
  by (auto simp: setClusterPreferences_def split: option.splits)

lemma ensureServer_unfold:
  "ensureServer env h w =
     (case proxyServer h of
        Some _ \<Rightarrow> (Inr (), h, w)
      | None \<Rightarrow>
         (case resolveProxyPort env h w of
            (Inl e, h', w') \<Rightarrow> (Inl e, h', w')
          | (Inr port, h', w') \<Rightarrow>
             (let proxyEnv =
                    (case preferences (cluster h') of
                       Some prefs \<Rightarrow>
                         if truthy_string (pref_httpsProxy prefs)
                         then (process_env env)(''HTTPS_PROXY'' := pref_httpsProxy prefs)
                         else process_env env
                     | None \<Rightarrow> process_env env);
                  proxy = \<lparr> proxy_serial = runCalls w', proxy_cluster = cluster h',
                            proxy_port = port, proxy_env = proxyEnv, lastError = None \<rparr>;
                  h'' = h'\<lparr>proxyServer := Some proxy\<rparr>;
                  w'' = w'\<lparr>runCalls := Suc (runCalls w')\<rparr>
              in case proxy_run env (runCalls w') of
                   Some e \<Rightarrow> (Inl e, h'', w'')
                 | None \<Rightarrow> (Inr (), h'', w''))))"
  by (auto simp: ensureServer_def ensureServer_begin_def ensureServer_resume_def
      resolveProxyPort_def resolveProxyPort_begin_def resolveProxyPort_resume_def Let_def
      split: option.splits sum.splits prod.splits suspension.splits)

lemma call_in_turn_keeps_port:
  assumes "proxyPort h = Some p" "p \<noteq> 0" "call_in_turn env op (h, w) = (h', w')"
  shows "proxyPort h' = Some p \<and> portCalls w' = portCalls w"
proof (cases op)
  case Init
  with assms show ?thesis by (auto simp: init_def resolveProxyPort_resolved)
next
  case (SetClusterPreferences cp)
  with assms show ?thesis
    by (auto split: sum.splits dest: setClusterPreferences_frame)
next
  case (GetPrometheusProvider ps)
  with assms getPrometheusProvider_frame [of ps h] show ?thesis by auto
next
  case (GetPrometheusService ps)
  with assms show ?thesis by (auto simp: getPrometheusService_handler)
next
  case (GetPrometheusPath ps)
  with assms getPrometheusPath_frame [of ps h] show ?thesis by auto
next
  case (GetApiTarget b)
  with assms show ?thesis
    by (auto simp: getApiTarget_def newApiTarget_def resolveProxyPort_resolved Let_def
        split: option.splits if_splits)
next
  case ResolveProxyPort
  with assms show ?thesis by (auto simp: resolveProxyPort_resolved)
next
  case EnsureServer
  with assms show ?thesis
    by (auto simp: ensureServer_unfold resolveProxyPort_resolved Let_def split: option.splits)
next
  case StopServer
  with assms show ?thesis by (auto simp: stopServer_def split: option.splits)
qed

lemma ensureServer_running:
  "proxyServer h \<noteq> None \<Longrightarrow> ensureServer env h w = (Inr (), h, w)"
  by (auto simp: ensureServer_unfold)

lemma ensureServer_stopped:
  assumes "proxyServer h = None" "ensureServer env h w = (r, h', w')"
  shows "(proxyServer h' = None \<and> runCalls w' = runCalls w \<and> exitCalls w' = exitCalls w)
       \<or> (proxyServer h' \<noteq> None \<and> runCalls w' = Suc (runCalls w) \<and> exitCalls w' = exitCalls w)"
proof (cases "resolveProxyPort env h w")
  case (fields r1 h1 w1)
  show ?thesis
  proof (cases r1)
    case (Inl e)
    with fields assms resolveProxyPort_error [of env h w e h1 w1] show ?thesis
      by (auto simp: ensureServer_unfold)
  next
    case (Inr p)
    with fields assms resolveProxyPort_result [of env h w p h1 w1] show ?thesis
      by (auto simp: ensureServer_unfold Let_def split: option.splits)
  qed
qed

lemma resolveProxyPort_frame:
  assumes "resolveProxyPort env h w = (r, h', w')"
  shows "proxyServer h' = proxyServer h \<and> runCalls w' = runCalls w \<and> exitCalls w' = exitCalls w"
proof (cases r)
  case (Inl e)
  with assms resolveProxyPort_error [of env h w e h' w'] show ?thesis by simp
next
  case (Inr p)
  with assms resolveProxyPort_result [of env h w p h' w'] show ?thesis by auto
qed

lemma getApiTarget_frame:
  assumes "getApiTarget env b h w = (r, h', w')"
  shows "proxyServer h' = proxyServer h \<and> runCalls w' = runCalls w \<and> exitCalls w' = exitCalls w"
proof (cases "resolveProxyPort env h w")
  case (fields r1 h1 w1)
  from resolveProxyPort_frame [OF fields] fields assms show ?thesis
    by (cases r1)
       (auto simp: getApiTarget_def newApiTarget_def Let_def split: option.splits if_splits)
qed

lemma call_in_turn_live:
  assumes "runCalls w = exitCalls w + live h" "call_in_turn env op (h, w) = (h', w')"
  shows "runCalls w' = exitCalls w' + live h'"
proof (cases op)
  case Init
  obtain r h1 w1 where r: "resolveProxyPort env h w = (r, h1, w1)"
    by (cases "resolveProxyPort env h w")
  from resolveProxyPort_frame [OF r] r Init assms show ?thesis
    by (cases r) (auto simp: init_def live_def)
next
  case (SetClusterPreferences cp)
  with assms show ?thesis
    by (auto simp: live_def split: sum.splits dest: setClusterPreferences_frame)
next
  case (GetPrometheusProvider ps)
  with assms getPrometheusProvider_frame [of ps h] show ?thesis by (auto simp: live_def)
next
  case (GetPrometheusService ps)
  with assms show ?thesis by (auto simp: getPrometheusService_handler)
next
  case (GetPrometheusPath ps)
  with assms getPrometheusPath_frame [of ps h] show ?thesis by (auto simp: live_def)
next
  case (GetApiTarget b)
  obtain r where "getApiTarget env b h w = (r, h', w')"
    using assms(2) GetApiTarget by (cases "getApiTarget env b h w") auto
  from getApiTarget_frame [OF this] assms(1) show ?thesis by (simp add: live_def)
next
  case ResolveProxyPort
  obtain r where "resolveProxyPort env h w = (r, h', w')"
    using assms(2) ResolveProxyPort by (cases "resolveProxyPort env h w") auto
  from resolveProxyPort_frame [OF this] assms(1) show ?thesis by (simp add: live_def)
next
  case EnsureServer
  obtain r where r: "ensureServer env h w = (r, h', w')"
    using assms(2) EnsureServer by (cases "ensureServer env h w") auto
  show ?thesis
  proof (cases "proxyServer h")
    case None
    from ensureServer_stopped [OF None r] None assms(1) show ?thesis
      by (auto simp: live_def)
  next
    case (Some a)
    with r assms(1) show ?thesis by (simp add: ensureServer_running)
  qed
next
  case StopServer
  with assms show ?thesis by (auto simp: stopServer_def live_def split: option.splits)
qed

lemma call_in_turn_keeps_server:
  assumes "proxyServer h \<noteq> None" "op \<noteq> StopServer" "call_in_turn env op (h, w) = (h', w')"
  shows "proxyServer h' = proxyServer h \<and> runCalls w' = runCalls w"
proof (cases op)
  case Init
  obtain r h1 w1 where r: "resolveProxyPort env h w = (r, h1, w1)"
    by (cases "resolveProxyPort env h w")
  from resolveProxyPort_frame [OF r] r Init assms show ?thesis
    by (cases r) (auto simp: init_def)
next
  case (SetClusterPreferences cp)
  with assms show ?thesis
    by (auto split: sum.splits dest: setClusterPreferences_frame)
next
  case (GetPrometheusProvider ps)
  with assms getPrometheusProvider_frame [of ps h] show ?thesis by auto
next
  case (GetPrometheusService ps)
  with assms show ?thesis by (auto simp: getPrometheusService_handler)
next
  case (GetPrometheusPath ps)
  with assms getPrometheusPath_frame [of ps h] show ?thesis by auto
next
  case (GetApiTarget b)
  obtain r where "getApiTarget env b h w = (r, h', w')"
    using assms(3) GetApiTarget by (cases "getApiTarget env b h w") auto
  from getApiTarget_frame [OF this] show ?thesis by simp
next
  case ResolveProxyPort
  obtain r where "resolveProxyPort env h w = (r, h', w')"
    using assms(3) ResolveProxyPort by (cases "resolveProxyPort env h w") auto
  from resolveProxyPort_frame [OF this] show ?thesis by simp
next
  case EnsureServer
  with assms show ?thesis by (simp add: ensureServer_running)
next
  case StopServer
  with assms show ?thesis by simp
qed

lemma calls_in_turn_keeps_port:
  "proxyPort h = Some p \<Longrightarrow> p \<noteq> 0 \<Longrightarrow> calls_in_turn env ops (h, w) = (h', w') \<Longrightarrow>
   proxyPort h' = Some p \<and> portCalls w' = portCalls w"
proof (induction ops arbitrary: h w)
  case Nil
  then show ?case by (simp add: calls_in_turn_def)
next
  case (Cons op ops)
  obtain h1 w1 where s: "call_in_turn env op (h, w) = (h1, w1)" by (cases "call_in_turn env op (h, w)")
  from call_in_turn_keeps_port [OF Cons.prems(1,2) s]
  have "proxyPort h1 = Some p" "portCalls w1 = portCalls w" by simp_all
  moreover from Cons.prems(3) s have "calls_in_turn env ops (h1, w1) = (h', w')"
    by (simp add: calls_in_turn_def)
  ultimately show ?case using Cons.IH [of h1 w1] Cons.prems(2) by simp
qed

lemma calls_in_turn_live:
  "runCalls w = exitCalls w + live h \<Longrightarrow> calls_in_turn env ops (h, w) = (h', w') \<Longrightarrow>
   runCalls w' = exitCalls w' + live h'"
proof (induction ops arbitrary: h w)
  case Nil
  then show ?case by (simp add: calls_in_turn_def)
next
  case (Cons op ops)
  obtain h1 w1 where s: "call_in_turn env op (h, w) = (h1, w1)" by (cases "call_in_turn env op (h, w)")
  from call_in_turn_live [OF Cons.prems(1) s] have "runCalls w1 = exitCalls w1 + live h1" .
  moreover from Cons.prems(2) s have "calls_in_turn env ops (h1, w1) = (h', w')"
    by (simp add: calls_in_turn_def)
  ultimately show ?case using Cons.IH [of w1 h1] by simp
qed

lemma calls_in_turn_keeps_server:
  "proxyServer h \<noteq> None \<Longrightarrow> StopServer \<notin> set ops \<Longrightarrow> calls_in_turn env ops (h, w) = (h', w') \<Longrightarrow>
   proxyServer h' = proxyServer h \<and> runCalls w' = runCalls w"
proof (induction ops arbitrary: h w)
  case Nil
  then show ?case by (simp add: calls_in_turn_def)
next
  case (Cons op ops)
  obtain h1 w1 where s: "call_in_turn env op (h, w) = (h1, w1)" by (cases "call_in_turn env op (h, w)")
  from Cons.prems(2) have "op \<noteq> StopServer" "StopServer \<notin> set ops" by auto
  from call_in_turn_keeps_server [OF Cons.prems(1) this(1) s]
  have k: "proxyServer h1 = proxyServer h" "runCalls w1 = runCalls w" by simp_all
  moreover from Cons.prems(3) s have "calls_in_turn env ops (h1, w1) = (h', w')"
    by (simp add: calls_in_turn_def)
  ultimately show ?case
    using Cons.IH [of h1 w1] Cons.prems(1) \<open>StopServer \<notin> set ops\<close> by simp
qed

subsection \<open>The pinned provider and the cached descriptor under calls made in turn\<close>

lemma resolveProxyPort_fields:
  assumes "resolveProxyPort env h w = (r, h', w')"
  shows "prometheusProvider h' = prometheusProvider h \<and> clusterUrl h' = clusterUrl h
       \<and> apiTarget h' = apiTarget h"
proof (cases r)
  case (Inl e)
  with assms resolveProxyPort_error [of env h w e h' w'] show ?thesis by simp
next
  case (Inr p)
  with assms resolveProxyPort_result [of env h w p h' w'] have "h' = h\<lparr>proxyPort := Some p\<rparr>"
    by simp
  then show ?thesis by simp
qed

lemma getApiTarget_fields:
  assumes "getApiTarget env b h w = (r, h', w')"
  shows "prometheusProvider h' = prometheusProvider h \<and> clusterUrl h' = clusterUrl h"
proof (cases "resolveProxyPort env h w")
  case (fields r1 h1 w1)
  from resolveProxyPort_fields [OF fields] fields assms show ?thesis
    by (cases r1)
       (auto simp: getApiTarget_def newApiTarget_def Let_def split: option.splits if_splits)
qed

lemma ensureServer_fields:
  assumes "ensureServer env h w = (r, h', w')"
  shows "prometheusProvider h' = prometheusProvider h \<and> clusterUrl h' = clusterUrl h
       \<and> apiTarget h' = apiTarget h"
proof (cases "resolveProxyPort env h w")
  case (fields r1 h1 w1)
  from resolveProxyPort_fields [OF fields] fields assms show ?thesis
    by (cases r1)
       (auto simp: ensureServer_unfold Let_def split: option.splits if_splits)
qed

lemma getPrometheusPath_pin:
  "prometheusProvider (snd (getPrometheusPath ps h)) = prometheusProvider h
   \<and> apiTarget (snd (getPrometheusPath ps h)) = apiTarget h
   \<and> clusterUrl (snd (getPrometheusPath ps h)) = clusterUrl h"
proof (cases "getPrometheusService ps h")
  case (Pair r h')
  with getPrometheusService_state [OF Pair] show ?thesis
    by (cases r; cases "prometheusPath h")
       (simp_all add: getPrometheusPath_def resolvePrometheusPath_def Let_def)
qed

lemma getPrometheusProvider_pinned:
  "truthy_string (prometheusProvider h) \<Longrightarrow> snd (getPrometheusProvider ps h) = h"
  by (simp add: getPrometheusProvider_def)

lemma getPrometheusProvider_fields:
  "apiTarget (snd (getPrometheusProvider ps h)) = apiTarget h
   \<and> clusterUrl (snd (getPrometheusProvider ps h)) = clusterUrl h"
proof (cases "getPrometheusService ps h")
  case (Pair r h')
  with getPrometheusService_state [OF Pair] show ?thesis
    by (cases r) (simp_all add: getPrometheusProvider_def Let_def)
qed

lemma setClusterPreferences_fields:
  "setClusterPreferences cp h = Inr h' \<Longrightarrow>
   apiTarget h' = apiTarget h \<and> clusterUrl h' = clusterUrl h
   \<and> prometheusProvider h' = map_option provider_type (pref_prometheusProvider (the cp))"
  by (auto simp: setClusterPreferences_def split: option.splits)

lemma call_in_turn_keeps_pin:
  assumes "truthy_string (prometheusProvider h)" "\<forall>cp. op \<noteq> SetClusterPreferences cp"
    and "call_in_turn env op (h, w) = (h', w')"
  shows "prometheusProvider h' = prometheusProvider h"
proof (cases op)
  case Init
  obtain r h1 w1 where r: "resolveProxyPort env h w = (r, h1, w1)"
    by (cases "resolveProxyPort env h w")
  from resolveProxyPort_fields [OF r] r Init assms show ?thesis
    by (cases r) (auto simp: init_def)
next
  case (SetClusterPreferences cp)
  with assms show ?thesis by simp
next
  case (GetPrometheusProvider ps)
  with assms getPrometheusProvider_pinned [of h ps] show ?thesis by auto
next
  case (GetPrometheusService ps)
  with assms show ?thesis by (auto simp: getPrometheusService_handler)
next
  case (GetPrometheusPath ps)
  with assms getPrometheusPath_pin [of ps h] show ?thesis by auto
next
  case (GetApiTarget b)
  obtain r where "getApiTarget env b h w = (r, h', w')"
    using assms(3) GetApiTarget by (cases "getApiTarget env b h w") auto
  from getApiTarget_fields [OF this] show ?thesis by simp
next
  case ResolveProxyPort
  obtain r where "resolveProxyPort env h w = (r, h', w')"
    using assms(3) ResolveProxyPort by (cases "resolveProxyPort env h w") auto
  from resolveProxyPort_fields [OF this] show ?thesis by simp
next
  case EnsureServer
  obtain r where "ensureServer env h w = (r, h', w')"
    using assms(3) EnsureServer by (cases "ensureServer env h w") auto
  from ensureServer_fields [OF this] show ?thesis by simp
next
  case StopServer
  with assms show ?thesis by (auto simp: stopServer_def split: option.splits)
qed

lemma calls_in_turn_keep_pin:
  "truthy_string (prometheusProvider h) \<Longrightarrow> \<forall>cp. SetClusterPreferences cp \<notin> set ops \<Longrightarrow>
   calls_in_turn env ops (h, w) = (h', w') \<Longrightarrow> prometheusProvider h' = prometheusProvider h"
proof (induction ops arbitrary: h w)
  case Nil
  then show ?case by (simp add: calls_in_turn_def)
next
  case (Cons op ops)
  obtain h1 w1 where s: "call_in_turn env op (h, w) = (h1, w1)"
    by (cases "call_in_turn env op (h, w)")
  from Cons.prems(2) have op: "\<forall>cp. op \<noteq> SetClusterPreferences cp"
    and ops: "\<forall>cp. SetClusterPreferences cp \<notin> set ops" by auto
  from call_in_turn_keeps_pin [OF Cons.prems(1) op s]
  have k: "prometheusProvider h1 = prometheusProvider h" .
  with Cons.prems(1) have t: "truthy_string (prometheusProvider h1)" by simp
  from Cons.prems(3) s have "calls_in_turn env ops (h1, w1) = (h', w')"
    by (simp add: calls_in_turn_def)
  from Cons.IH [OF t ops this] k show ?case by simp
qed

lemma cache_consistent_unresolved:
  "cache_consistent h \<Longrightarrow> \<not> truthy_number (proxyPort h) \<Longrightarrow> apiTarget h = None"
  by (auto simp: cache_consistent_def truthy_number_def split: option.splits)

lemma resolveProxyPort_cache:
  assumes nz: "\<forall>i port. getFreePort env i = Inr port \<longrightarrow> port \<noteq> 0"
    and c: "cache_consistent h"
    and r: "resolveProxyPort env h w = (r, h', w')"
  shows "cache_consistent h' \<and> (\<forall>p. r = Inr p \<longrightarrow> p \<noteq> 0 \<and> proxyPort h' = Some p)"
proof (cases "truthy_number (proxyPort h)")
  case True
  then obtain p where p: "proxyPort h = Some p" "p \<noteq> 0"
    by (auto simp: truthy_number_def split: option.splits)
  with r have "h' = h" "r = Inr p" by (simp_all add: resolveProxyPort_resolved)
  with c p show ?thesis by simp
next
  case False
  from cache_consistent_unresolved [OF c False] have none: "apiTarget h = None" .
  show ?thesis
  proof (cases "getFreePort env (portCalls w)")
    case (Inl e)
    with False r have "h' = h" "r = Inl e" by (simp_all add: resolveProxyPort_unresolved)
    with c show ?thesis by simp
  next
    case (Inr p)
    with False r have "h' = h\<lparr>proxyPort := Some p\<rparr>" "r = Inr p"
      by (simp_all add: resolveProxyPort_unresolved)
    moreover from nz Inr have "p \<noteq> 0" by blast
    ultimately show ?thesis using none by (simp add: cache_consistent_def)
  qed
qed

lemma getApiTarget_cache:
  assumes nz: "\<forall>i port. getFreePort env i = Inr port \<longrightarrow> port \<noteq> 0"
    and c: "cache_consistent h"
    and g: "getApiTarget env b h w = (r, h', w')"
  shows "cache_consistent h' \<and> clusterUrl h' = clusterUrl h
       \<and> (\<forall>d. r = Inr d \<longrightarrow>
            (\<exists>port. port \<noteq> 0 \<and> proxyPort h' = Some port
               \<and> d = \<lparr> changeOrigin = True,
                       timeout = (if b then 4 * 60 * 60 * 1000 else 30000),
                       headers = [(''Host'', url_hostname (clusterUrl h))],
                       target = \<lparr> target_port = port, protocol = ''http://'',
                                  target_host = ''localhost'',
                                  target_path = url_path (clusterUrl h) \<rparr> \<rparr>))"
proof (cases "b \<or> apiTarget h = None")
  case False
  then obtain cd where cd: "apiTarget h = Some cd" "\<not> b" by auto
  with g have rh: "r = Inr cd" "h' = h" by (simp_all add: getApiTarget_cached)
  from c cd obtain p where p: "proxyPort h = Some p" "p \<noteq> 0"
    and shape: "cd = \<lparr> changeOrigin = True, timeout = 30000,
                   headers = [(''Host'', url_hostname (clusterUrl h))],
                   target = \<lparr> target_port = p, protocol = ''http://'',
                              target_host = ''localhost'',
                              target_path = url_path (clusterUrl h) \<rparr> \<rparr>"
    by (cases "proxyPort h") (simp_all add: cache_consistent_def)
  from cd have tmo: "(if b then 4 * 60 * 60 * 1000 else 30000) = (30000::nat)" by simp
  show ?thesis
  proof (intro conjI allI impI)
    from c rh show "cache_consistent h'" by simp
    from rh show "clusterUrl h' = clusterUrl h" by simp
    fix d assume "r = Inr d"
    with rh have "d = cd" by simp
    with p shape rh show "\<exists>port. port \<noteq> 0 \<and> proxyPort h' = Some port
               \<and> d = \<lparr> changeOrigin = True,
                       timeout = (if b then 4 * 60 * 60 * 1000 else 30000),
                       headers = [(''Host'', url_hostname (clusterUrl h))],
                       target = \<lparr> target_port = port, protocol = ''http://'',
                                  target_host = ''localhost'',
                                  target_path = url_path (clusterUrl h) \<rparr> \<rparr>"
      unfolding tmo by (intro exI [of _ p]) simp
  qed
next
  case True
  obtain r1 h1 w1 where r1: "resolveProxyPort env h w = (r1, h1, w1)"
    by (cases "resolveProxyPort env h w")
  note rc = resolveProxyPort_cache [OF nz c r1]
  note rf = resolveProxyPort_fields [OF r1]
  show ?thesis
  proof (cases r1)
    case (Inl e)
    with True g r1 have "h' = h1" "r = Inl e"
      by (simp_all add: getApiTarget_build newApiTarget_def)
    with rc rf show ?thesis by simp
  next
    case (Inr p)
    with rc have p: "p \<noteq> 0" "proxyPort h1 = Some p" by simp_all
    let ?d = "\<lparr> changeOrigin = True, timeout = (if b then 14400000 else 30000),
                headers = [(''Host'', url_hostname (clusterUrl h))],
                target = \<lparr> target_port = p, protocol = ''http://'',
                           target_host = ''localhost'',
                           target_path = url_path (clusterUrl h) \<rparr> \<rparr>"
    from Inr True g r1 rf have res: "r = Inr ?d"
      and h': "h' = (if \<not> b then h1\<lparr>apiTarget := Some ?d\<rparr> else h1)"
      by (simp_all add: getApiTarget_build newApiTarget_def)
    have "cache_consistent h'"
    proof (cases b)
      case True
      with h' rc show ?thesis by simp
    next
      case False
      with h' p rf show ?thesis by (simp add: cache_consistent_def)
    qed
    moreover from h' rf have "clusterUrl h' = clusterUrl h" by simp
    moreover from h' p have port: "proxyPort h' = Some p" by simp
    moreover have "\<exists>port. port \<noteq> 0 \<and> proxyPort h' = Some port
               \<and> d = \<lparr> changeOrigin = True,
                       timeout = (if b then 4 * 60 * 60 * 1000 else 30000),
                       headers = [(''Host'', url_hostname (clusterUrl h))],
                       target = \<lparr> target_port = port, protocol = ''http://'',
                                  target_host = ''localhost'',
                                  target_path = url_path (clusterUrl h) \<rparr> \<rparr>"
      if "r = Inr d" for d
    proof -
      from that res have "d = ?d" by simp
      with p port show ?thesis by (intro exI [of _ p]) simp
    qed
    ultimately show ?thesis by blast
  qed
qed

lemma cache_consistent_cong:
  "apiTarget h' = apiTarget h \<and> proxyPort h' = proxyPort h \<and> clusterUrl h' = clusterUrl h
   \<Longrightarrow> cache_consistent h \<Longrightarrow> cache_consistent h' \<and> clusterUrl h' = clusterUrl h"
  unfolding cache_consistent_def by (simp split: option.splits)

lemma call_in_turn_cache:
  assumes nz: "\<forall>i port. getFreePort env i = Inr port \<longrightarrow> port \<noteq> 0"
    and c: "cache_consistent h"
    and s: "call_in_turn env op (h, w) = (h', w')"
  shows "cache_consistent h' \<and> clusterUrl h' = clusterUrl h"
proof (cases op)
  case Init
  obtain r h1 w1 where r: "resolveProxyPort env h w = (r, h1, w1)"
    by (cases "resolveProxyPort env h w")
  from r Init s have "h' = h1" by (cases r) (auto simp: init_def)
  with resolveProxyPort_cache [OF nz c r] resolveProxyPort_fields [OF r] show ?thesis by simp
next
  case (SetClusterPreferences cp)
  show ?thesis
  proof (cases "setClusterPreferences cp h")
    case (Inl e)
    with SetClusterPreferences s c show ?thesis by simp
  next
    case (Inr h1)
    with SetClusterPreferences s have "h' = h1" by simp
    with setClusterPreferences_fields [OF Inr] setClusterPreferences_frame [OF Inr]
    have "apiTarget h' = apiTarget h \<and> proxyPort h' = proxyPort h
        \<and> clusterUrl h' = clusterUrl h" by simp
    from cache_consistent_cong [OF this c] show ?thesis .
  qed
next
  case (GetPrometheusProvider ps)
  with s have "h' = snd (getPrometheusProvider ps h)" by auto
  with getPrometheusProvider_fields [of ps h] getPrometheusProvider_frame [of ps h]
  have "apiTarget h' = apiTarget h \<and> proxyPort h' = proxyPort h
      \<and> clusterUrl h' = clusterUrl h" by simp
  from cache_consistent_cong [OF this c] show ?thesis .
next
  case (GetPrometheusService ps)
  with s c show ?thesis by (auto simp: getPrometheusService_handler)
next
  case (GetPrometheusPath ps)
  with s have "h' = snd (getPrometheusPath ps h)" by auto
  with getPrometheusPath_pin [of ps h] getPrometheusPath_frame [of ps h]
  have "apiTarget h' = apiTarget h \<and> proxyPort h' = proxyPort h
      \<and> clusterUrl h' = clusterUrl h" by simp
  from cache_consistent_cong [OF this c] show ?thesis .
next
  case (GetApiTarget b)
  obtain r where "getApiTarget env b h w = (r, h', w')"
    using s GetApiTarget by (cases "getApiTarget env b h w") auto
  from getApiTarget_cache [OF nz c this] show ?thesis by simp
next
  case ResolveProxyPort
  obtain r where r: "resolveProxyPort env h w = (r, h', w')"
    using s ResolveProxyPort by (cases "resolveProxyPort env h w") auto
  from resolveProxyPort_cache [OF nz c r] resolveProxyPort_fields [OF r] show ?thesis by simp
next
  case EnsureServer
  obtain r where e: "ensureServer env h w = (r, h', w')"
    using s EnsureServer by (cases "ensureServer env h w") auto
  obtain r1 h1 w1 where r1: "resolveProxyPort env h w = (r1, h1, w1)"
    by (cases "resolveProxyPort env h w")
  from e r1 have "h' = h \<or> (apiTarget h' = apiTarget h1 \<and> proxyPort h' = proxyPort h1
      \<and> clusterUrl h' = clusterUrl h1)"
    by (cases r1) (auto simp: ensureServer_unfold Let_def split: option.splits)
  then show ?thesis
  proof
    assume "h' = h"
    with c show ?thesis by simp
  next
    assume eq: "apiTarget h' = apiTarget h1 \<and> proxyPort h' = proxyPort h1
      \<and> clusterUrl h' = clusterUrl h1"
    from resolveProxyPort_cache [OF nz c r1] have "cache_consistent h1" by simp
    from cache_consistent_cong [OF eq this] resolveProxyPort_fields [OF r1]
    show ?thesis by simp
  qed
next
  case StopServer
  with s have "apiTarget h' = apiTarget h \<and> proxyPort h' = proxyPort h
      \<and> clusterUrl h' = clusterUrl h"
    by (auto simp: stopServer_def split: option.splits)
  from cache_consistent_cong [OF this c] show ?thesis .
qed

lemma calls_in_turn_cache:
  "\<forall>i port. getFreePort env i = Inr port \<longrightarrow> port \<noteq> 0 \<Longrightarrow> cache_consistent h \<Longrightarrow>
   calls_in_turn env ops (h, w) = (h', w') \<Longrightarrow>
   cache_consistent h' \<and> clusterUrl h' = clusterUrl h"
proof (induction ops arbitrary: h w)
  case Nil
  then show ?case by (simp add: calls_in_turn_def)
next
  case (Cons op ops)
  obtain h1 w1 where s: "call_in_turn env op (h, w) = (h1, w1)"
    by (cases "call_in_turn env op (h, w)")
  from call_in_turn_cache [OF Cons.prems(1,2) s]
  have c1: "cache_consistent h1" and u1: "clusterUrl h1 = clusterUrl h" by simp_all
  from Cons.prems(3) s have "calls_in_turn env ops (h1, w1) = (h', w')"
    by (simp add: calls_in_turn_def)
  from Cons.IH [OF Cons.prems(1) c1 this] u1 show ?case by simp
qed

lemma ContextHandler_fresh:
  "ContextHandler parse k cl = Inr h \<Longrightarrow>
   apiTarget h = None \<and> proxyPort h = None \<and> proxyServer h = None"
  by (auto simp: ContextHandler_def setClusterPreferences_def Let_def split: option.splits)

section \<open>Claims about telemetry resolution\<close>

text \<open>
  A probe that raises is not recovered: with a failing provider listed before a matching
  one, \<open>getPrometheusService\<close> rejects with the probe's error.
\<close>

theorem probe_error_propagates_counterexample:
  "getPrometheusService [provider_failing 5, provider_B 20] example_handler
     = (Inl (Raised ''timeout''), example_handler)"
  by (simp add: getPrometheusService_def candidate_providers_def truthy_string_def
      example_handler_def provider_failing_def provider_B_def)

text \<open>
  C2 (as the code has it). When the probe of a candidate provider raises,
  \<open>getPrometheusService\<close> rejects with the error of a raising candidate: \<open>Promise.all\<close>
  rejects and nothing catches it, so no service is selected, whatever the other
  providers return.
\<close>

theorem probe_error_propagates:
  assumes "\<exists>p \<in> set (candidate_providers ps h). isl (probe p)"
  shows "\<exists>p e. p \<in> set (candidate_providers ps h) \<and> probe p = Inl e
            \<and> fst (getPrometheusService ps h) = Inl e"
  using getPrometheusService_rejected [OF assms] by auto

theorem probe_error_propagates_witness:
  "fst (getPrometheusService [provider_A 1, provider_B 20, provider_failing 30] example_handler)
     = Inl (Raised ''timeout'')"
proof -
  let ?ps = "[provider_A 1, provider_B 20, provider_failing 30]"
  have cs: "candidate_providers ?ps example_handler = ?ps"
    by (simp add: candidate_providers_def truthy_string_def example_handler_def)
  have "\<exists>p \<in> set (candidate_providers ?ps example_handler). isl (probe p)"
    unfolding cs by (simp add: provider_failing_def)
  from probe_error_propagates [OF this] show ?thesis
    unfolding cs by (auto simp: provider_A_def provider_B_def provider_failing_def)
qed

text \<open>
  A raising probe is skipped by the selection rule as the specification words it, which
  picks B, but the code selects nothing: the call rejects. With two raising probes the
  error that comes back is the one of the probe that settles first.
\<close>

theorem selection_with_raising_probe_counterexample:
  "first_match [provider_A 10, provider_failing 5, provider_B 20] = Some service_B
   \<and> fst (getPrometheusService [provider_A 10, provider_failing 5, provider_B 20]
            example_handler) = Inl (Raised ''timeout'')
   \<and> fst (getPrometheusService [provider_failing 5, provider_refusing 7] example_handler)
       = Inl (Raised ''timeout'')
   \<and> fst (getPrometheusService [provider_failing 7, provider_refusing 5] example_handler)
       = Inl (Raised ''refused'')"
  by (simp add: getPrometheusService_def candidate_providers_def truthy_string_def
      example_handler_def provider_A_def provider_B_def provider_failing_def
      provider_refusing_def)

text \<open>
  C3 (as the code has it). With no provider identifier pinned and every probe returning
  (absent or a match), \<open>getPrometheusService\<close> resolves to the first match in the order of
  the provider list, or to the fallback when there is none. A provider list with the
  same ids and the same probe outcomes, whatever its latencies, resolves to the same
  result: the order in which the probes complete does not matter. For providers
  A (absent), B (match), C (match) the result is B's match.
\<close>

theorem first_in_order_selected:
  assumes "\<not> truthy_string (prometheusProvider h)"
    and "\<forall>p \<in> set ps. \<exists>r. probe p = Inr r"
  shows "fst (getPrometheusService ps h)
           = Inr (case first_match ps of Some s \<Rightarrow> s | None \<Rightarrow> fallback_service)
       \<and> (\<forall>ps'. map provider_id ps' = map provider_id ps \<and> map probe ps' = map probe ps \<longrightarrow>
             fst (getPrometheusService ps' h) = fst (getPrometheusService ps h))"
proof -
  have sel: "fst (getPrometheusService qs h)
           = Inr (case first_match qs of Some s \<Rightarrow> s | None \<Rightarrow> fallback_service)"
    if "\<forall>p \<in> set qs. \<exists>r. probe p = Inr r" for qs
  proof -
    from assms(1) have cs: "candidate_providers qs h = qs"
      by (simp add: candidate_providers_def)
    from that have "\<forall>p \<in> set (candidate_providers qs h). \<not> isl (probe p)"
      unfolding cs by auto
    from getPrometheusService_fulfilled [OF this] show ?thesis
      unfolding cs by simp
  qed
  have indep: "fst (getPrometheusService ps' h) = fst (getPrometheusService ps h)"
    if eq: "map probe ps' = map probe ps" for ps'
  proof -
    from eq have "set (map probe ps') = set (map probe ps)" by (rule arg_cong)
    then have img: "probe ` set ps' = probe ` set ps" by (simp only: set_map)
    have "\<exists>r. probe p = Inr r" if "p \<in> set ps'" for p
    proof -
      from that have "probe p \<in> probe ` set ps'" by (rule imageI)
      then have "probe p \<in> probe ` set ps" by (simp only: img)
      then obtain q where q: "q \<in> set ps" and pq: "probe p = probe q" by (rule imageE)
      from assms(2) q have "\<exists>r. probe q = Inr r" by (rule bspec)
      then show ?thesis by (simp only: pq)
    qed
    then have "\<forall>p \<in> set ps'. \<exists>r. probe p = Inr r" by (rule ballI)
    from sel [OF this] sel [OF assms(2)] first_match_probes [OF eq] show ?thesis by simp
  qed
  show ?thesis
  proof (intro conjI allI impI)
    show "fst (getPrometheusService ps h)
           = Inr (case first_match ps of Some s \<Rightarrow> s | None \<Rightarrow> fallback_service)"
      by (rule sel [OF assms(2)])
  next
    fix ps' :: "prometheus_provider list"
    assume "map provider_id ps' = map provider_id ps \<and> map probe ps' = map probe ps"
    then have "map probe ps' = map probe ps" by (rule conjunct2)
    then show "fst (getPrometheusService ps' h) = fst (getPrometheusService ps h)"
      by (rule indep)
  qed
qed

theorem first_in_order_selected_witness:
  "fst (getPrometheusService [provider_A 30, provider_B 20, provider_C 10] example_handler)
     = Inr service_B
   \<and> fst (getPrometheusService [provider_A 10, provider_B 20, provider_C 30] example_handler)
     = Inr service_B"
proof -
  have h: "\<not> truthy_string (prometheusProvider example_handler)"
    by (simp add: truthy_string_def example_handler_def)
  have p: "\<forall>p \<in> set [provider_A a, provider_B b, provider_C c]. \<exists>r. probe p = Inr r" for a b c
    by (simp add: provider_A_def provider_B_def provider_C_def)
  have m: "first_match [provider_A a, provider_B b, provider_C c] = Some service_B" for a b c
    by (simp add: provider_A_def provider_B_def provider_C_def)
  note sel = first_in_order_selected [OF h p, THEN conjunct1]
  from sel [of 30 20 10] sel [of 10 20 30]
  show ?thesis unfolding m by simp
qed

text \<open>
  A successful probed resolution through \<open>getPrometheusService\<close> pins nothing: the
  handler's provider identifier is still unset afterwards and the next resolution probes
  the whole list again.
\<close>

theorem service_resolution_pins_counterexample:
  "fst (getPrometheusService [provider_A 10, provider_B 20] example_handler) = Inr service_B
   \<and> prometheusProvider (snd (getPrometheusService [provider_A 10, provider_B 20] example_handler))
       = None
   \<and> candidate_providers [provider_A 10, provider_B 20]
       (snd (getPrometheusService [provider_A 10, provider_B 20] example_handler))
       = [provider_A 10, provider_B 20]"
  by (simp add: getPrometheusService_def candidate_providers_def truthy_string_def
      example_handler_def provider_A_def provider_B_def)

text \<open>
  C4 (as the code has it). \<open>getPrometheusService\<close> leaves the handler as it is and
  \<open>getPrometheusPath\<close> leaves the provider identifier as it is. It is
  \<open>getPrometheusProvider\<close> that pins: called with no identifier pinned, it stores the id
  of the service that \<open>getPrometheusService\<close> resolved. Through every sequence of calls
  made in turn that does not contain \<open>setClusterPreferences\<close>, that identifier (when not
  empty) stays pinned, every \<open>getPrometheusService\<close> restricts its candidates to the
  providers with that id, and \<open>getPrometheusProvider\<close> changes nothing.
  \<open>setClusterPreferences\<close> replaces the identifier by the provider type of the new
  preferences.
\<close>

theorem provider_pinned_by_getPrometheusProvider:
  assumes "\<not> truthy_string (prometheusProvider h)"
    and "fst (getPrometheusService ps h) = Inr s"
    and "service_id s \<noteq> []"
    and "\<forall>cp. SetClusterPreferences cp \<notin> set ops"
    and "calls_in_turn env ops (snd (getPrometheusProvider ps h), w) = (h', w')"
  shows "snd (getPrometheusService ps h) = h
       \<and> prometheusProvider (snd (getPrometheusPath ps h)) = prometheusProvider h
       \<and> prometheusProvider (snd (getPrometheusProvider ps h)) = Some (service_id s)
       \<and> prometheusProvider h' = Some (service_id s)
       \<and> candidate_providers ps' h' = filter (\<lambda>p. provider_id p = service_id s) ps'
       \<and> snd (getPrometheusProvider ps' h') = h'
       \<and> (\<exists>h''. setClusterPreferences (Some cp) h' = Inr h''
              \<and> prometheusProvider h'' = map_option provider_type (pref_prometheusProvider cp))"
proof -
  let ?h1 = "snd (getPrometheusProvider ps h)"
  from assms(2) have "getPrometheusService ps h = (Inr s, h)"
    using getPrometheusService_handler [of ps h] by (cases "getPrometheusService ps h") simp
  with assms(1) have "?h1 = h\<lparr>prometheusProvider := Some (service_id s)\<rparr>"
    by (simp add: getPrometheusProvider_def)
  then have pin: "prometheusProvider ?h1 = Some (service_id s)" by simp
  with assms(3) have t: "truthy_string (prometheusProvider ?h1)"
    by (simp add: truthy_string_def)
  from calls_in_turn_keep_pin [OF t assms(4,5)] pin
  have pin': "prometheusProvider h' = Some (service_id s)" by simp
  with assms(3) have t': "truthy_string (prometheusProvider h')"
    by (simp add: truthy_string_def)
  from pin' t' have "candidate_providers ps' h' = filter (\<lambda>p. provider_id p = service_id s) ps'"
    by (simp add: candidate_providers_def)
  moreover have "\<exists>h''. setClusterPreferences (Some cp) h' = Inr h''
      \<and> prometheusProvider h'' = map_option provider_type (pref_prometheusProvider cp)"
    by (simp add: setClusterPreferences_def)
  ultimately show ?thesis
    using pin pin' getPrometheusPath_pin [of ps h] getPrometheusProvider_pinned [OF t', of ps']
    by (simp add: getPrometheusService_handler)
qed

theorem provider_pinned_by_getPrometheusProvider_witness:
  "prometheusProvider (snd (getPrometheusProvider [provider_A 10, provider_B 20, provider_C 5]
                              example_handler)) = Some ''B''
   \<and> prometheusProvider
        (fst (calls_in_turn example_collaborators
                [GetPrometheusPath [provider_C 5], EnsureServer, GetPrometheusProvider [provider_C 5]]
                (snd (getPrometheusProvider [provider_A 10, provider_B 20, provider_C 5]
                        example_handler), example_world))) = Some ''B''
   \<and> candidate_providers [provider_A 10, provider_B 20, provider_C 5]
        (fst (calls_in_turn example_collaborators
                [GetPrometheusPath [provider_C 5], EnsureServer, GetPrometheusProvider [provider_C 5]]
                (snd (getPrometheusProvider [provider_A 10, provider_B 20, provider_C 5]
                        example_handler), example_world))) = [provider_B 20]"
proof -
  let ?ps = "[provider_A 10, provider_B 20, provider_C 5]"
  let ?ops = "[GetPrometheusPath [provider_C 5], EnsureServer,
               GetPrometheusProvider [provider_C 5]]"
  let ?s = "calls_in_turn example_collaborators ?ops
              (snd (getPrometheusProvider ?ps example_handler), example_world)"
  have a: "\<not> truthy_string (prometheusProvider example_handler)"
    by (simp add: truthy_string_def example_handler_def)
  have b: "fst (getPrometheusService ?ps example_handler) = Inr service_B"
    by (simp add: getPrometheusService_def candidate_providers_def truthy_string_def
        example_handler_def provider_A_def provider_B_def provider_C_def)
  have c: "service_id service_B \<noteq> []" by (simp add: service_B_def)
  have d: "\<forall>cp. SetClusterPreferences cp \<notin> set ?ops" by simp
  have e: "?s = (fst ?s, snd ?s)" by simp
  from provider_pinned_by_getPrometheusProvider [OF a b c d e, of ?ps] show ?thesis
    by (simp add: service_B_def provider_A_def provider_B_def provider_C_def)
qed

text \<open>
  The fallback's identifier is not \<open>"default"\<close>.
\<close>

theorem fallback_is_default_counterexample:
  "fst (getPrometheusService [provider_A 10] example_handler)
     \<noteq> Inr \<lparr> service_id = ''default'', service_namespace = ''lens-metrics'',
              service_name = ''prometheus'', service_port = 80 \<rparr>"
  by (simp add: getPrometheusService_def candidate_providers_def truthy_string_def
      example_handler_def provider_A_def fallback_service_def)

text \<open>
  C7 (as the code has it). When every probed provider returns absent,
  \<open>getPrometheusService\<close> resolves to the fixed fallback with identifier \<open>"lens"\<close>,
  namespace \<open>"lens-metrics"\<close>, service \<open>"prometheus"\<close> and port 80, whether or not a
  service path is configured.
\<close>

theorem fallback_when_no_match:
  assumes "\<forall>p \<in> set (candidate_providers ps h). probe p = Inr None"
  shows "fst (getPrometheusService ps h)
           = Inr \<lparr> service_id = ''lens'', service_namespace = ''lens-metrics'',
                   service_name = ''prometheus'', service_port = 80 \<rparr>"
proof -
  have none: "first_match cs = None" if "\<forall>p \<in> set cs. probe p = Inr None" for cs
    using that by (induction cs) auto
  from assms have "\<forall>p \<in> set (candidate_providers ps h). \<not> isl (probe p)" by auto
  from getPrometheusService_fulfilled [OF this] none [OF assms] show ?thesis
    by (simp add: fallback_service_def)
qed

theorem fallback_when_no_match_witness:
  "fst (getPrometheusService [provider_A 10, provider_A 20] example_handler)
     = Inr \<lparr> service_id = ''lens'', service_namespace = ''lens-metrics'',
             service_name = ''prometheus'', service_port = 80 \<rparr>
   \<and> prometheusPath example_handler = None"
proof -
  have "\<forall>p \<in> set (candidate_providers [provider_A 10, provider_A 20] example_handler).
          probe p = Inr None"
    by (simp add: candidate_providers_def truthy_string_def example_handler_def provider_A_def)
  from fallback_when_no_match [OF this] show ?thesis
    by (simp add: example_handler_def)
qed

section \<open>Claims about the API target\<close>

text \<open>
  C5. From an empty cache, a non-watch call that succeeds returns a descriptor with the
  30 second timeout and caches it, and the next non-watch call returns that same
  descriptor without changing anything. A watch call that succeeds returns what
  \<open>newApiTarget\<close> builds with the 4 hour timeout, leaves the cache as it was, and its
  result differs from a cached 30 second descriptor. Both calls succeed when the port is
  already resolved or the allocator answers with a port.
\<close>

theorem getApiTarget_caching:
  "(apiTarget h = None \<and> getApiTarget env False h w = (Inr d, h', w') \<longrightarrow>
      timeout d = 30000 \<and> apiTarget h' = Some d
      \<and> getApiTarget env False h' w' = (Inr d, h', w'))
   \<and> (getApiTarget env True h w = (Inr d, h', w') \<longrightarrow>
      timeout d = 4 * 60 * 60 * 1000 \<and> apiTarget h' = apiTarget h
      \<and> newApiTarget env (4 * 60 * 60 * 1000) h w = (Inr d, h', w')
      \<and> (\<forall>c. apiTarget h = Some c \<and> timeout c = 30000 \<longrightarrow> d \<noteq> c))
   \<and> (truthy_number (proxyPort h) \<or> \<not> isl (getFreePort env (portCalls w)) \<longrightarrow>
      \<not> isl (fst (getApiTarget env False h w)) \<and> \<not> isl (fst (getApiTarget env True h w)))"
proof (intro conjI impI)
  assume a: "apiTarget h = None \<and> getApiTarget env False h w = (Inr d, h', w')"
  then have "\<exists>h1. newApiTarget env 30000 h w = (Inr d, h1, w')
                  \<and> h' = h1\<lparr>apiTarget := Some d\<rparr>"
    by (auto simp: getApiTarget_build split: prod.splits sum.splits)
  then obtain h1 where n: "newApiTarget env 30000 h w = (Inr d, h1, w')"
    and h': "h' = h1\<lparr>apiTarget := Some d\<rparr>" by blast
  from newApiTarget_result [OF n] show "timeout d = 30000" by auto
  from h' show "apiTarget h' = Some d" by simp
  then show "getApiTarget env False h' w' = (Inr d, h', w')" by (rule getApiTarget_cached)
next
  assume a: "getApiTarget env True h w = (Inr d, h', w')"
  then have n: "newApiTarget env 14400000 h w = (Inr d, h', w')"
    by (auto simp: getApiTarget_build split: prod.splits sum.splits)
  then show "newApiTarget env (4 * 60 * 60 * 1000) h w = (Inr d, h', w')" by simp
  from newApiTarget_result [OF n] obtain p where
    r: "resolveProxyPort env h w = (Inr p, h', w')" and d: "timeout d = 14400000" by auto
  from d show "timeout d = 4 * 60 * 60 * 1000" by simp
  from resolveProxyPort_result [OF r] have "h' = h\<lparr>proxyPort := Some p\<rparr>" by simp
  then show "apiTarget h' = apiTarget h" by simp
  from d show "\<forall>c. apiTarget h = Some c \<and> timeout c = 30000 \<longrightarrow> d \<noteq> c" by auto
next
  assume "truthy_number (proxyPort h) \<or> \<not> isl (getFreePort env (portCalls w))"
  then have "\<exists>p h1 w1. resolveProxyPort env h w = (Inr p, h1, w1)"
  proof
    assume "truthy_number (proxyPort h)"
    then obtain p where "proxyPort h = Some p" "p \<noteq> 0"
      by (auto simp: truthy_number_def split: option.splits)
    then show ?thesis by (simp add: resolveProxyPort_resolved)
  next
    assume ok: "\<not> isl (getFreePort env (portCalls w))"
    show ?thesis
    proof (cases "truthy_number (proxyPort h)")
      case True
      then obtain p where "proxyPort h = Some p" "p \<noteq> 0"
        by (auto simp: truthy_number_def split: option.splits)
      then show ?thesis by (simp add: resolveProxyPort_resolved)
    next
      case False
      with ok show ?thesis
        by (cases "getFreePort env (portCalls w)") (simp_all add: resolveProxyPort_unresolved)
    qed
  qed
  then obtain p h1 w1 where r: "resolveProxyPort env h w = (Inr p, h1, w1)" by blast
  then show "\<not> isl (fst (getApiTarget env False h w))"
    by (cases "apiTarget h") (simp_all add: getApiTarget_build getApiTarget_cached newApiTarget_def)
  from r show "\<not> isl (fst (getApiTarget env True h w))"
    by (simp add: getApiTarget_build newApiTarget_def)
qed

theorem getApiTarget_caching_witness:
  "getApiTarget example_collaborators False example_handler example_world
     = (Inr (example_target 30000), cached_handler, example_world\<lparr>portCalls := 1\<rparr>)
   \<and> getApiTarget example_collaborators False cached_handler (example_world\<lparr>portCalls := 1\<rparr>)
     = (Inr (example_target 30000), cached_handler, example_world\<lparr>portCalls := 1\<rparr>)
   \<and> getApiTarget example_collaborators True cached_handler (example_world\<lparr>portCalls := 1\<rparr>)
     = (Inr (example_target 14400000), cached_handler, example_world\<lparr>portCalls := 1\<rparr>)
   \<and> timeout (example_target 14400000) = 14400000
   \<and> apiTarget cached_handler = Some (example_target 30000)"
proof -
  let ?w1 = "example_world\<lparr>portCalls := 1\<rparr>"
  have fresh: "apiTarget example_handler = None" by (simp add: example_handler_def)
  have first: "getApiTarget example_collaborators False example_handler example_world
     = (Inr (example_target 30000), cached_handler, ?w1)"
    by (simp add: getApiTarget_def newApiTarget_def resolveProxyPort_def
        resolveProxyPort_begin_def resolveProxyPort_resume_def example_collaborators_def
        example_handler_def example_world_def example_url_def example_target_def
        cached_handler_def Let_def)
  have watch: "getApiTarget example_collaborators True cached_handler ?w1
     = (Inr (example_target 14400000), cached_handler, ?w1)"
    by (simp add: getApiTarget_def newApiTarget_def resolveProxyPort_def
        resolveProxyPort_begin_def resolveProxyPort_resume_def example_collaborators_def
        example_handler_def example_world_def example_url_def example_target_def
        cached_handler_def Let_def)
  from getApiTarget_caching [of example_handler example_collaborators example_world
      "example_target 30000" cached_handler ?w1] fresh first
  have second: "getApiTarget example_collaborators False cached_handler ?w1
     = (Inr (example_target 30000), cached_handler, ?w1)"
    and cache: "apiTarget cached_handler = Some (example_target 30000)" by simp_all
  from getApiTarget_caching [of cached_handler example_collaborators ?w1
      "example_target 14400000" cached_handler ?w1] watch
  have "timeout (example_target 14400000) = 14400000" by simp
  with first second cache watch show ?thesis by simp
qed

text \<open>
  The descriptor's protocol is \<open>"http://"\<close>, not \<open>"http"\<close>, and its \<open>Host\<close> header is
  the URL's hostname, without the port that the URL's host carries. A cached descriptor
  carries the port of the time it was built: when the allocator answered 0 then, a later
  \<open>resolveProxyPort\<close> resolves another port and the cached descriptor still has port 0.
\<close>

theorem api_target_protocol_counterexample:
  "fst (getApiTarget example_collaborators False example_handler example_world)
     = Inr \<lparr> changeOrigin = True, timeout = 30000, headers = [(''Host'', Some ''10.0.0.1'')],
             target = \<lparr> target_port = 4001, protocol = ''http://'', target_host = ''localhost'',
                        target_path = Some ''/k8s'' \<rparr> \<rparr>
   \<and> protocol (target (projr (fst (getApiTarget example_collaborators False example_handler
                                      example_world)))) \<noteq> ''http''
   \<and> url_host (clusterUrl example_handler) = Some ''10.0.0.1:6443''
   \<and> proxyPort (fst (calls_in_turn zero_first_collaborators
                       [GetApiTarget False, ResolveProxyPort]
                       (example_handler, example_world))) = Some 4002
   \<and> map_sum id (\<lambda>d. target_port (target d))
        (fst (getApiTarget zero_first_collaborators False
                (fst (calls_in_turn zero_first_collaborators
                        [GetApiTarget False, ResolveProxyPort]
                        (example_handler, example_world)))
                (snd (calls_in_turn zero_first_collaborators
                        [GetApiTarget False, ResolveProxyPort]
                        (example_handler, example_world))))) = Inr 0"
  by (simp add: getApiTarget_def newApiTarget_def resolveProxyPort_def resolveProxyPort_begin_def
      resolveProxyPort_resume_def example_collaborators_def example_handler_def example_world_def
      example_url_def zero_first_collaborators_def calls_in_turn_def Let_def)

text \<open>
  C8 (as the code has it). For a handler built by the constructor and used through calls
  made in turn, with an allocator that answers with non-zero ports, every descriptor
  that \<open>getApiTarget\<close> returns, built by the call or taken from the cache, is
  \<open>changeOrigin: true\<close>, the timeout of the request kind, the header \<open>Host\<close> set to the
  hostname of the cluster URL, and the target with the handler's resolved proxy port,
  protocol \<open>"http://"\<close>, host \<open>"localhost"\<close> and the path of the cluster URL.
\<close>

theorem api_target_descriptor:
  assumes "ContextHandler parse k cl = Inr h0"
    and "\<forall>i port. getFreePort env i = Inr port \<longrightarrow> port \<noteq> 0"
    and "calls_in_turn env ops (h0, w0) = (h, w)"
    and "getApiTarget env isWatchRequest h w = (Inr d, h', w')"
  shows "\<exists>port. port \<noteq> 0 \<and> proxyPort h' = Some port
           \<and> d = \<lparr> changeOrigin = True,
                   timeout = (if isWatchRequest then 4 * 60 * 60 * 1000 else 30000),
                   headers = [(''Host'', url_hostname (clusterUrl h0))],
                   target = \<lparr> target_port = port, protocol = ''http://'',
                              target_host = ''localhost'',
                              target_path = url_path (clusterUrl h0) \<rparr> \<rparr>"
proof -
  from ContextHandler_fresh [OF assms(1)] have "cache_consistent h0"
    by (simp add: cache_consistent_def)
  from calls_in_turn_cache [OF assms(2) this assms(3)]
  have c: "cache_consistent h" and u: "clusterUrl h = clusterUrl h0" by simp_all
  from getApiTarget_cache [OF assms(2) c assms(4)] u show ?thesis by simp
qed

theorem api_target_descriptor_witness:
  "ContextHandler (\<lambda>s. example_url) example_kube_config example_cluster = Inr example_handler
   \<and> calls_in_turn example_collaborators [GetApiTarget False] (example_handler, example_world)
       = (cached_handler, example_world\<lparr>portCalls := 1\<rparr>)
   \<and> getApiTarget example_collaborators False cached_handler (example_world\<lparr>portCalls := 1\<rparr>)
       = (Inr (example_target 30000), cached_handler, example_world\<lparr>portCalls := 1\<rparr>)
   \<and> fst (getApiTarget example_collaborators True cached_handler
             (example_world\<lparr>portCalls := 1\<rparr>)) = Inr (example_target 14400000)"
proof -
  let ?w1 = "example_world\<lparr>portCalls := 1\<rparr>"
  have built: "ContextHandler (\<lambda>s. example_url) example_kube_config example_cluster
      = Inr example_handler"
    by (simp add: ContextHandler_def setClusterPreferences_def setCurrentContext_def
        getCurrentCluster_def getContextObject_def example_kube_config_def example_cluster_def
        example_preferences_def example_handler_def template_number_def truthy_string_def)
  have nz: "\<forall>i port. getFreePort example_collaborators i = Inr port \<longrightarrow> port \<noteq> 0"
    by (simp add: example_collaborators_def)
  have turn: "calls_in_turn example_collaborators [GetApiTarget False]
      (example_handler, example_world) = (cached_handler, ?w1)"
    by (simp add: calls_in_turn_def getApiTarget_def newApiTarget_def resolveProxyPort_def
        resolveProxyPort_begin_def resolveProxyPort_resume_def example_collaborators_def
        example_handler_def example_world_def example_url_def example_target_def
        cached_handler_def Let_def)
  have state: "snd (getApiTarget example_collaborators b cached_handler ?w1)
      = (cached_handler, ?w1)"
    and ok: "\<not> isl (fst (getApiTarget example_collaborators b cached_handler ?w1))" for b
    by (cases b; simp add: getApiTarget_def newApiTarget_def resolveProxyPort_def
        resolveProxyPort_begin_def example_handler_def cached_handler_def Let_def)+
  have port: "proxyPort cached_handler = Some 4001"
    and url: "clusterUrl example_handler = example_url"
    by (simp_all add: cached_handler_def example_handler_def)
  have desc: "fst (getApiTarget example_collaborators b cached_handler ?w1)
      = Inr (example_target (if b then 14400000 else 30000))" for b
  proof -
    from ok [of b] obtain d where
      d: "fst (getApiTarget example_collaborators b cached_handler ?w1) = Inr d"
      by (cases "fst (getApiTarget example_collaborators b cached_handler ?w1)") auto
    with state [of b] have g: "getApiTarget example_collaborators b cached_handler ?w1
        = (Inr d, cached_handler, ?w1)"
      by (cases "getApiTarget example_collaborators b cached_handler ?w1") simp
    from api_target_descriptor [OF built nz turn g] port url
    have "d = example_target (if b then 14400000 else 30000)"
      by (auto simp: example_target_def example_url_def)
    with d show ?thesis by simp
  qed
  from desc [of False] state [of False] have
    "getApiTarget example_collaborators False cached_handler ?w1
       = (Inr (example_target 30000), cached_handler, ?w1)"
    by (cases "getApiTarget example_collaborators False cached_handler ?w1") simp
  with built turn desc [of True] show ?thesis by simp
qed

section \<open>Claims about the proxy port and the proxy process\<close>

text \<open>
  Calls that overlap. Two \<open>resolveProxyPort\<close> calls start before either resumes; the
  second resumes first and resolves 4002, which a later call returns, then the first
  resumes and stores 4001, which the last call returns: the resolved port has changed
  and the allocator ran twice. Two \<open>ensureServer\<close> calls that both start before either
  resumes both find no handle, and each constructs and runs a proxy: two are started,
  none is exited, and the handler holds only the second.
\<close>

theorem one_port_one_process_counterexample:
  "results (run_schedule example_collaborators [Call, Call, Resume 1, Call, Resume 0, Call]
              example_handler example_world) = [Inr 4002, Inr 4002, Inr 4001, Inr 4001]
   \<and> portCalls (sched_world (run_schedule example_collaborators
                                [Call, Call, Resume 1, Call, Resume 0, Call]
                                example_handler example_world)) = 2
   \<and> runCalls (ens_world (run_ensure_schedule example_collaborators
                              [EnsureCall, EnsureCall, EnsureResume 0, EnsureResume 0]
                              example_handler example_world)) = 2
   \<and> exitCalls (ens_world (run_ensure_schedule example_collaborators
                               [EnsureCall, EnsureCall, EnsureResume 0, EnsureResume 0]
                               example_handler example_world)) = 0
   \<and> ens_results (run_ensure_schedule example_collaborators
                     [EnsureCall, EnsureCall, EnsureResume 0, EnsureResume 0]
                     example_handler example_world) = [Inr (), Inr ()]
   \<and> map_option proxy_serial
        (proxyServer (ens_handler (run_ensure_schedule example_collaborators
                                     [EnsureCall, EnsureCall, EnsureResume 0, EnsureResume 0]
                                     example_handler example_world))) = Some 1"
  by (simp add: run_schedule_def run_ensure_schedule_def resolveProxyPort_begin_def
      resolveProxyPort_resume_def ensureServer_begin_def ensureServer_resume_def
      example_collaborators_def example_handler_def example_world_def example_cluster_def
      example_preferences_def truthy_string_def Let_def)

text \<open>
  C6 (as the code has it). Over every sequence of calls made in turn: a port that is
  resolved (non-zero) stays the handler's port, the allocator is not invoked again and
  \<open>resolveProxyPort\<close> returns that port; a port that \<open>resolveProxyPort\<close> returns is the one
  it stored; the number of proxies started and not exited equals the number of handles
  the handler holds, which is at most one; and while no \<open>stopServer\<close> occurs, a handler
  that holds a proxy keeps it, starts no other, and \<open>ensureServer\<close> is a no-op.
\<close>

theorem one_port_one_process:
  assumes "calls_in_turn env ops (h, w) = (h', w')"
  shows "(\<forall>p. proxyPort h = Some p \<and> p \<noteq> 0 \<longrightarrow>
            proxyPort h' = Some p \<and> portCalls w' = portCalls w
            \<and> resolveProxyPort env h' w' = (Inr p, h', w'))
       \<and> (\<forall>p. fst (resolveProxyPort env h w) = Inr p \<longrightarrow>
            proxyPort (fst (snd (resolveProxyPort env h w))) = Some p)
       \<and> (runCalls w = exitCalls w + live h \<longrightarrow>
            runCalls w' = exitCalls w' + live h' \<and> live h' \<le> 1)
       \<and> (proxyServer h \<noteq> None \<and> StopServer \<notin> set ops \<longrightarrow>
            proxyServer h' = proxyServer h \<and> runCalls w' = runCalls w
            \<and> ensureServer env h' w' = (Inr (), h', w'))"
proof (intro conjI allI impI)
  fix p assume p: "proxyPort h = Some p \<and> p \<noteq> 0"
  with calls_in_turn_keeps_port [OF _ _ assms, of p]
  show "proxyPort h' = Some p" "portCalls w' = portCalls w" by simp_all
  with p show "resolveProxyPort env h' w' = (Inr p, h', w')"
    by (simp add: resolveProxyPort_resolved)
next
  fix p assume "fst (resolveProxyPort env h w) = Inr p"
  then obtain h1 w1 where "resolveProxyPort env h w = (Inr p, h1, w1)"
    by (cases "resolveProxyPort env h w") auto
  with resolveProxyPort_result [OF this]
  show "proxyPort (fst (snd (resolveProxyPort env h w))) = Some p" by simp
next
  assume "runCalls w = exitCalls w + live h"
  from calls_in_turn_live [OF this assms] show "runCalls w' = exitCalls w' + live h'" .
  show "live h' \<le> 1" by (simp add: live_def split: option.splits)
next
  assume a: "proxyServer h \<noteq> None \<and> StopServer \<notin> set ops"
  with calls_in_turn_keeps_server [OF _ _ assms]
  show k: "proxyServer h' = proxyServer h" "runCalls w' = runCalls w" by simp_all
  with a show "ensureServer env h' w' = (Inr (), h', w')"
    by (simp add: ensureServer_running)
qed

theorem one_port_one_process_witness:
  "calls_in_turn example_collaborators [EnsureServer] (example_handler, example_world)
     = (running_handler, running_world)
   \<and> proxyPort (fst (calls_in_turn example_collaborators
                       [GetApiTarget True, EnsureServer, ResolveProxyPort, Init]
                       (running_handler, running_world))) = Some 4001
   \<and> proxyServer (fst (calls_in_turn example_collaborators
                       [GetApiTarget True, EnsureServer, ResolveProxyPort, Init]
                       (running_handler, running_world))) = proxyServer running_handler
   \<and> snd (calls_in_turn example_collaborators
                       [GetApiTarget True, EnsureServer, ResolveProxyPort, Init]
                       (running_handler, running_world)) = running_world"
proof -
  let ?ops = "[GetApiTarget True, EnsureServer, ResolveProxyPort, Init]"
  let ?s = "calls_in_turn example_collaborators ?ops (running_handler, running_world)"
  have first: "calls_in_turn example_collaborators [EnsureServer] (example_handler, example_world)
      = (running_handler, running_world)"
    by (simp add: calls_in_turn_def ensureServer_unfold resolveProxyPort_def resolveProxyPort_begin_def
        resolveProxyPort_resume_def example_collaborators_def example_handler_def
        example_world_def example_cluster_def example_preferences_def truthy_string_def Let_def
        running_handler_def running_world_def)
  have run: "?s = (fst ?s, snd ?s)" by simp
  have port: "proxyPort running_handler = Some 4001 \<and> (4001::nat) \<noteq> 0"
    by (simp add: running_handler_def)
  have server: "proxyServer running_handler \<noteq> None \<and> StopServer \<notin> set ?ops"
    by (simp add: running_handler_def)
  have lv: "runCalls running_world = exitCalls running_world + live running_handler"
    by (simp add: live_def running_handler_def running_world_def)
  from one_port_one_process [OF run] port server lv
  have "proxyPort (fst ?s) = Some 4001 \<and> proxyServer (fst ?s) = proxyServer running_handler
        \<and> portCalls (snd ?s) = 1 \<and> runCalls (snd ?s) = 1 \<and> exitCalls (snd ?s) = 0"
    by (auto simp: live_def running_world_def running_handler_def)
  then have "proxyPort (fst ?s) = Some 4001 \<and> proxyServer (fst ?s) = proxyServer running_handler
        \<and> snd ?s = running_world"
    by (cases "snd ?s") (simp add: running_world_def)
  with first show ?thesis by simp
qed

subsection \<open>Overlapping calls\<close>

lemma step_Call_resolved:
  "proxyPort (sched_handler c) = Some p \<Longrightarrow> p \<noteq> 0 \<Longrightarrow>
   step env Call c = c\<lparr>results := results c @ [Inr p]\<rparr>"
  by (simp add: resolveProxyPort_begin_def)

lemma step_Call_unresolved:
  "\<not> truthy_number (proxyPort (sched_handler c)) \<Longrightarrow>
   step env Call c =
     c\<lparr> sched_world := (sched_world c)\<lparr>portCalls := Suc (portCalls (sched_world c))\<rparr>,
        pending := pending c @ [portCalls (sched_world c)] \<rparr>"
  by (auto simp: resolveProxyPort_begin_def truthy_number_def split: option.splits)

lemma steps_after_resolution:
  "proxyPort (sched_handler c) = Some p \<Longrightarrow> p \<noteq> 0 \<Longrightarrow> pending c = [] \<Longrightarrow>
   fold (step env) evs c = c\<lparr>results := results c @ replicate (count_list evs Call) (Inr p)\<rparr>"
proof (induction evs arbitrary: c)
  case Nil
  then show ?case by simp
next
  case (Cons ev evs)
  show ?case
  proof (cases ev)
    case Call
    let ?c1 = "c\<lparr>results := results c @ [Inr p]\<rparr>"
    from Cons.prems(1,2) have s: "step env Call c = ?c1" by (rule step_Call_resolved)
    from Cons.prems have "fold (step env) evs ?c1
        = ?c1\<lparr>results := results ?c1 @ replicate (count_list evs Call) (Inr p)\<rparr>"
      by (intro Cons.IH) simp_all
    with s Call show ?thesis by (simp add: replicate_append_same)
  next
    case (Resume i)
    with Cons.prems have "step env ev c = c" by simp
    with Cons.IH [OF Cons.prems] Resume show ?thesis by simp
  qed
qed

lemma steps_overlapping:
  "\<not> truthy_number (proxyPort (sched_handler c)) \<Longrightarrow>
   fold (step env) (replicate n Call) c =
     c\<lparr> sched_world := (sched_world c)\<lparr>portCalls := portCalls (sched_world c) + n\<rparr>,
        pending := pending c @ [portCalls (sched_world c) ..< portCalls (sched_world c) + n] \<rparr>"
proof (induction n arbitrary: c)
  case 0
  then show ?case by simp
next
  case (Suc n)
  let ?c1 = "c\<lparr> sched_world := (sched_world c)\<lparr>portCalls := Suc (portCalls (sched_world c))\<rparr>,
                pending := pending c @ [portCalls (sched_world c)] \<rparr>"
  from Suc.prems have s: "step env Call c = ?c1" by (rule step_Call_unresolved)
  from Suc.prems have "\<not> truthy_number (proxyPort (sched_handler ?c1))" by simp
  from Suc.IH [OF this] s show ?case
    by (simp add: upt_rec [of "portCalls (sched_world c)"])
qed

lemma resolveProxyPort_resume_result:
  "fst (resolveProxyPort_resume env t h) = getFreePort env t"
  by (simp add: resolveProxyPort_resume_def split: sum.splits)

lemma resolveProxyPort_resume_port:
  "proxyPort (snd (resolveProxyPort_resume env t h))
     = (case getFreePort env t of Inl e \<Rightarrow> proxyPort h | Inr p \<Rightarrow> Some p)"
  by (simp add: resolveProxyPort_resume_def split: sum.splits)

lemma step_Resume:
  "i < length (pending c) \<Longrightarrow>
   step env (Resume i) c =
     c\<lparr> sched_handler := snd (resolveProxyPort_resume env (pending c ! i) (sched_handler c)),
        pending := take i (pending c) @ drop (Suc i) (pending c),
        results := results c @ [getFreePort env (pending c ! i)] \<rparr>"
  using resolveProxyPort_resume_result [of env "pending c ! i" "sched_handler c"]
  by (cases "resolveProxyPort_resume env (pending c ! i) (sched_handler c)") simp

lemma resumes_in_order:
  "k \<le> length (pending c) \<Longrightarrow>
   pending (fold (step env) (replicate k (Resume 0)) c) = drop k (pending c)
   \<and> results (fold (step env) (replicate k (Resume 0)) c)
       = results c @ map (getFreePort env) (take k (pending c))
   \<and> sched_world (fold (step env) (replicate k (Resume 0)) c) = sched_world c
   \<and> (\<forall>p. 0 < k \<and> getFreePort env (pending c ! (k - 1)) = Inr p \<longrightarrow>
         proxyPort (sched_handler (fold (step env) (replicate k (Resume 0)) c)) = Some p)"
proof (induction k)
  case 0
  then show ?case by simp
next
  case (Suc k)
  let ?ck = "fold (step env) (replicate k (Resume 0)) c"
  from Suc.prems have k: "k \<le> length (pending c)" "k < length (pending c)" by simp_all
  from Suc.IH [OF k(1)] have
    pk: "pending ?ck = drop k (pending c)"
    and rk: "results ?ck = results c @ map (getFreePort env) (take k (pending c))"
    and wk: "sched_world ?ck = sched_world c" by simp_all
  from pk k(2) have valid: "0 < length (pending ?ck)" by simp
  from pk k(2) have hd: "pending ?ck ! 0 = pending c ! k" by simp
  have fold: "fold (step env) (replicate (Suc k) (Resume 0)) c = step env (Resume 0) ?ck"
    by (simp add: replicate_append_same [symmetric] del: replicate.simps)
  note s = step_Resume [OF valid, of env]
  have "pending (step env (Resume 0) ?ck) = drop (Suc k) (pending c)"
    unfolding s using pk by (simp add: drop_Suc tl_drop)
  moreover have "results (step env (Resume 0) ?ck)
      = results c @ map (getFreePort env) (take (Suc k) (pending c))"
    unfolding s using rk hd k(2) by (simp add: take_Suc_conv_app_nth)
  moreover have "sched_world (step env (Resume 0) ?ck) = sched_world c"
    unfolding s using wk by simp
  moreover have "proxyPort (sched_handler (step env (Resume 0) ?ck)) = Some p"
    if "getFreePort env (pending c ! k) = Inr p" for p
    unfolding s using that hd by (simp add: resolveProxyPort_resume_port)
  ultimately show ?case unfolding fold by simp
qed

lemma mset_remove_nth:
  "i < length xs \<Longrightarrow> add_mset (xs ! i) (mset (take i xs @ drop (Suc i) xs)) = mset xs"
proof -
  assume "i < length xs"
  then have "xs = take i xs @ xs ! i # drop (Suc i) xs" by (rule id_take_nth_drop)
  then have "mset xs = mset (take i xs @ xs ! i # drop (Suc i) xs)" by simp
  then show ?thesis by simp
qed

lemma resumes_any_order:
  "\<exists>ts. results (fold (step env) (map Resume is) c) = results c @ map (getFreePort env) ts
      \<and> mset ts + mset (pending (fold (step env) (map Resume is) c)) = mset (pending c)
      \<and> sched_world (fold (step env) (map Resume is) c) = sched_world c"
proof (induction "is" arbitrary: c)
  case Nil
  show ?case by (intro exI [of _ "[]"]) simp
next
  case (Cons i "is")
  show ?case
  proof (cases "i < length (pending c)")
    case False
    then have "step env (Resume i) c = c" by simp
    with Cons.IH [of c] show ?thesis by simp
  next
    case True
    let ?c1 = "step env (Resume i) c"
    note s = step_Resume [OF True, of env]
    from Cons.IH [of ?c1] obtain ts where
      r: "results (fold (step env) (map Resume is) ?c1)
            = results ?c1 @ map (getFreePort env) ts"
      and m: "mset ts + mset (pending (fold (step env) (map Resume is) ?c1)) = mset (pending ?c1)"
      and w: "sched_world (fold (step env) (map Resume is) ?c1) = sched_world ?c1"
      by blast
    have p1: "pending ?c1 = take i (pending c) @ drop (Suc i) (pending c)"
      and r1: "results ?c1 = results c @ [getFreePort env (pending c ! i)]"
      and w1: "sched_world ?c1 = sched_world c"
      unfolding s by simp_all
    let ?c' = "fold (step env) (map Resume (i # is)) c"
    have c': "?c' = fold (step env) (map Resume is) ?c1" by simp
    have "results ?c' = results c @ map (getFreePort env) (pending c ! i # ts)"
      unfolding c' r r1 by simp
    moreover have "mset (pending c ! i # ts) + mset (pending ?c') = mset (pending c)"
      unfolding c' using m p1 mset_remove_nth [OF True] by simp
    moreover have "sched_world ?c' = sched_world c"
      unfolding c' w w1 ..
    ultimately show ?thesis by blast
  qed
qed

text \<open>
  Two calls that overlap: both start before either resumes. The allocator is invoked
  twice and the two calls resolve to different ports.
\<close>

theorem overlapping_calls_counterexample:
  "portCalls (sched_world (run_schedule example_collaborators [Call, Call, Resume 0, Resume 0]
                             example_handler example_world)) = 2
   \<and> results (run_schedule example_collaborators [Call, Call, Resume 0, Resume 0]
                 example_handler example_world) = [Inr 4001, Inr 4002]"
  by (simp add: run_schedule_def resolveProxyPort_begin_def resolveProxyPort_resume_def
      example_collaborators_def example_handler_def example_world_def)

text \<open>
  C1 (as the code has it). Starting with no port resolved: when the first call
  completes before any other call starts and the allocator answered with a non-zero
  port, the allocator is invoked exactly once and every call, however the later events
  are scheduled, resolves to that port. Calls that all start before the first one
  resumes each invoke the allocator: n such calls make n invocations and none has a
  result yet. When they resume in the order in which they started, the k-th call
  resolves or rejects with the answer to the k-th invocation, and the handler is left
  with the port of the last call when that call got one. Resumed in any order, the
  results are the answers to invocations of their own, each invocation answering one
  call.
\<close>

theorem resolveProxyPort_single_allocation:
  assumes "\<not> truthy_number (proxyPort h)"
  shows "(getFreePort env (portCalls w) = Inr p \<and> p \<noteq> 0 \<longrightarrow>
            portCalls (sched_world (run_schedule env (Call # Resume 0 # evs) h w))
              = Suc (portCalls w)
            \<and> results (run_schedule env (Call # Resume 0 # evs) h w)
              = replicate (Suc (count_list evs Call)) (Inr p)
            \<and> pending (run_schedule env (Call # Resume 0 # evs) h w) = []
            \<and> proxyPort (sched_handler (run_schedule env (Call # Resume 0 # evs) h w)) = Some p)
       \<and> portCalls (sched_world (run_schedule env (replicate n Call) h w)) = portCalls w + n
       \<and> pending (run_schedule env (replicate n Call) h w) = [portCalls w ..< portCalls w + n]
       \<and> results (run_schedule env (replicate n Call) h w) = []
       \<and> portCalls (sched_world (run_schedule env (replicate n Call @ replicate n (Resume 0)) h w))
           = portCalls w + n
       \<and> results (run_schedule env (replicate n Call @ replicate n (Resume 0)) h w)
           = map (getFreePort env) [portCalls w ..< portCalls w + n]
       \<and> (0 < n \<and> getFreePort env (portCalls w + n - 1) = Inr q \<longrightarrow>
            proxyPort (sched_handler
                         (run_schedule env (replicate n Call @ replicate n (Resume 0)) h w))
              = Some q)
       \<and> (\<exists>ts. results (run_schedule env (replicate n Call @ map Resume js) h w)
                  = map (getFreePort env) ts
              \<and> mset ts + mset (pending (run_schedule env (replicate n Call @ map Resume js) h w))
                  = mset [portCalls w ..< portCalls w + n])"
proof -
  let ?c0 = "\<lparr>sched_handler = h, sched_world = w, pending = [], results = []\<rparr>"
  let ?cn = "fold (step env) (replicate n Call) ?c0"
  let ?ts = "[portCalls w ..< portCalls w + n]"
  from assms have un: "\<not> truthy_number (proxyPort (sched_handler ?c0))" by simp
  from steps_overlapping [OF un, of env n]
  have cn: "?cn = ?c0\<lparr> sched_world := w\<lparr>portCalls := portCalls w + n\<rparr>, pending := ?ts \<rparr>"
    by simp
  then have pn: "pending ?cn = ?ts" and rn: "results ?cn = []"
    and wn: "portCalls (sched_world ?cn) = portCalls w + n" by simp_all
  have seq: "getFreePort env (portCalls w) = Inr p \<and> p \<noteq> 0 \<longrightarrow>
            portCalls (sched_world (run_schedule env (Call # Resume 0 # evs) h w))
              = Suc (portCalls w)
            \<and> results (run_schedule env (Call # Resume 0 # evs) h w)
              = replicate (Suc (count_list evs Call)) (Inr p)
            \<and> pending (run_schedule env (Call # Resume 0 # evs) h w) = []
            \<and> proxyPort (sched_handler (run_schedule env (Call # Resume 0 # evs) h w)) = Some p"
  proof
    assume a: "getFreePort env (portCalls w) = Inr p \<and> p \<noteq> 0"
    let ?c2 = "\<lparr>sched_handler = h\<lparr>proxyPort := Some p\<rparr>,
                sched_world = w\<lparr>portCalls := Suc (portCalls w)\<rparr>,
                pending = [], results = [Inr p]\<rparr>"
    from step_Call_unresolved [OF un, of env] a
    have two: "step env (Resume 0) (step env Call ?c0) = ?c2"
      by (simp add: resolveProxyPort_resume_def)
    from a have "fold (step env) evs ?c2
        = ?c2\<lparr>results := results ?c2 @ replicate (count_list evs Call) (Inr p)\<rparr>"
      by (intro steps_after_resolution) simp_all
    with two have run: "run_schedule env (Call # Resume 0 # evs) h w
        = ?c2\<lparr>results := Inr p # replicate (count_list evs Call) (Inr p)\<rparr>"
      by (simp add: run_schedule_def)
    show "portCalls (sched_world (run_schedule env (Call # Resume 0 # evs) h w))
              = Suc (portCalls w)
            \<and> results (run_schedule env (Call # Resume 0 # evs) h w)
              = replicate (Suc (count_list evs Call)) (Inr p)
            \<and> pending (run_schedule env (Call # Resume 0 # evs) h w) = []
            \<and> proxyPort (sched_handler (run_schedule env (Call # Resume 0 # evs) h w)) = Some p"
      unfolding run by simp
  qed
  have start: "run_schedule env (replicate n Call) h w = ?cn"
    by (simp add: run_schedule_def)
  have fifo: "run_schedule env (replicate n Call @ replicate n (Resume 0)) h w
      = fold (step env) (replicate n (Resume 0)) ?cn"
    by (simp add: run_schedule_def)
  have any: "run_schedule env (replicate n Call @ map Resume js) h w
      = fold (step env) (map Resume js) ?cn"
    by (simp add: run_schedule_def)
  have len: "n \<le> length (pending ?cn)" unfolding pn by simp
  note ord = resumes_in_order [OF len, of env]
  have f1: "portCalls (sched_world (fold (step env) (replicate n (Resume 0)) ?cn)) = portCalls w + n"
    using ord wn by simp
  have f2: "results (fold (step env) (replicate n (Resume 0)) ?cn) = map (getFreePort env) ?ts"
    using ord unfolding pn rn by simp
  have f3: "0 < n \<and> getFreePort env (portCalls w + n - 1) = Inr q \<longrightarrow>
      proxyPort (sched_handler (fold (step env) (replicate n (Resume 0)) ?cn)) = Some q"
  proof
    assume a: "0 < n \<and> getFreePort env (portCalls w + n - 1) = Inr q"
    then have "?ts ! (n - 1) = portCalls w + n - 1" by simp
    with a have "0 < n \<and> getFreePort env (pending ?cn ! (n - 1)) = Inr q"
      unfolding pn by simp
    with ord show "proxyPort (sched_handler (fold (step env) (replicate n (Resume 0)) ?cn)) = Some q"
      by blast
  qed
  from resumes_any_order [of env js ?cn] obtain ts where
    "results (fold (step env) (map Resume js) ?cn) = results ?cn @ map (getFreePort env) ts"
    "mset ts + mset (pending (fold (step env) (map Resume js) ?cn)) = mset (pending ?cn)"
    by blast
  then have f4: "\<exists>ts. results (fold (step env) (map Resume js) ?cn) = map (getFreePort env) ts
      \<and> mset ts + mset (pending (fold (step env) (map Resume js) ?cn)) = mset ?ts"
    unfolding pn rn by auto
  show ?thesis
    unfolding start fifo any
    using seq pn rn wn f1 f2 f3 f4 by (intro conjI) (simp_all add: run_schedule_def)
qed

theorem resolveProxyPort_single_allocation_witness:
  "portCalls (sched_world (run_schedule example_collaborators
                             [Call, Resume 0, Call, Call, Resume 1, Call]
                             example_handler example_world)) = 1
   \<and> results (run_schedule example_collaborators [Call, Resume 0, Call, Call, Resume 1, Call]
                 example_handler example_world) = [Inr 4001, Inr 4001, Inr 4001, Inr 4001]
   \<and> portCalls (sched_world (run_schedule example_collaborators [Call, Call, Call]
                                example_handler example_world)) = 3
   \<and> results (run_schedule example_collaborators
                 [Call, Call, Call, Resume 0, Resume 0, Resume 0]
                 example_handler example_world) = [Inr 4001, Inr 4002, Inr 4003]
   \<and> proxyPort (sched_handler (run_schedule example_collaborators
                                  [Call, Call, Call, Resume 0, Resume 0, Resume 0]
                                  example_handler example_world)) = Some 4003"
proof -
  have a: "\<not> truthy_number (proxyPort example_handler)"
    by (simp add: truthy_number_def example_handler_def)
  have b: "getFreePort example_collaborators (portCalls example_world) = Inr 4001
           \<and> (4001::nat) \<noteq> 0"
    by (simp add: example_collaborators_def example_world_def)
  have b': "0 < (3::nat)
            \<and> getFreePort example_collaborators (portCalls example_world + 3 - 1) = Inr 4003"
    by (simp add: example_collaborators_def example_world_def)
  have c: "count_list [Call, Call, Resume 1, Call] Call = 3" by simp
  have d: "replicate 3 Call = [Call, Call, Call]"
    "replicate 3 (Resume 0) = [Resume 0, Resume 0, Resume 0]"
    by (simp_all add: numeral_3_eq_3)
  have e: "map (getFreePort example_collaborators)
             [portCalls example_world ..< portCalls example_world + 3]
           = [Inr 4001, Inr 4002, Inr 4003]"
    by (simp add: example_collaborators_def example_world_def upt_rec)
  from resolveProxyPort_single_allocation [OF a, where env = example_collaborators
      and w = example_world and p = 4001 and evs = "[Call, Call, Resume 1, Call]"
      and n = 3 and q = 4003 and js = "[]"] b b'
  show ?thesis unfolding c d e by (simp add: example_world_def numeral_Bit0 numeral_Bit1)
qed

section \<open>Claims about preferences\<close>

text \<open>
  C10. \<open>setClusterPreferences\<close> called with absent preferences throws a \<open>TypeError\<close>; it
  throws exactly when the preferences are absent; and the constructor throws for a
  cluster whose \<open>preferences\<close> field is absent.
\<close>

theorem setClusterPreferences_absent_throws:
  "setClusterPreferences None h = Inl TypeError
   \<and> (isl (setClusterPreferences cp h) \<longleftrightarrow> cp = None)
   \<and> (preferences cl = None \<longrightarrow> ContextHandler parse k cl = Inl TypeError)"
  by (auto simp: setClusterPreferences_def ContextHandler_def Let_def split: option.splits)

theorem setClusterPreferences_absent_throws_witness:
  "ContextHandler (\<lambda>s. example_url) example_kube_config (example_cluster\<lparr>preferences := None\<rparr>)
     = Inl TypeError
   \<and> ContextHandler (\<lambda>s. example_url) example_kube_config example_cluster = Inr example_handler
   \<and> setClusterPreferences None example_handler = Inl TypeError"
proof -
  have "preferences (example_cluster\<lparr>preferences := None\<rparr>) = None" by simp
  with setClusterPreferences_absent_throws [of example_handler None
      "example_cluster\<lparr>preferences := None\<rparr>" "\<lambda>s. example_url" example_kube_config]
  have "ContextHandler (\<lambda>s. example_url) example_kube_config
          (example_cluster\<lparr>preferences := None\<rparr>) = Inl TypeError"
    and "setClusterPreferences None example_handler = Inl TypeError" by simp_all
  moreover have "ContextHandler (\<lambda>s. example_url) example_kube_config example_cluster
      = Inr example_handler"
    by (simp add: ContextHandler_def setClusterPreferences_def setCurrentContext_def
        getCurrentCluster_def getContextObject_def example_kube_config_def example_cluster_def
        example_preferences_def example_handler_def template_number_def truthy_string_def)
  ultimately show ?thesis by simp
qed

end
